theory Spec2Isabelle
  imports Complex_Main
begin

section \<open>Text primitives of the Python runtime\<close>

text \<open>
  Rtab2csv.py works on Python \<open>str\<close> values. A text is modelled as a \<open>string\<close>
  whose characters are the code points below 256; the whitespace and line-break
  classes below are Python's \<open>str.isspace\<close> and the boundaries of
  \<open>str.splitlines\<close> on that range.
\<close>

definition TAB :: char where "TAB = CHR 0x09"
definition LF :: char where "LF = CHR 0x0A"
definition CR :: char where "CR = CHR 0x0D"

definition is_space :: "char \<Rightarrow> bool" where
  "is_space c =
     (let n = (of_char c :: nat)
      in (9 \<le> n \<and> n \<le> 13) \<or> (28 \<le> n \<and> n \<le> 32) \<or> n = 133 \<or> n = 160)"

definition is_linebreak :: "char \<Rightarrow> bool" where
  "is_linebreak c =
     (let n = (of_char c :: nat)
      in (10 \<le> n \<and> n \<le> 13) \<or> (28 \<le> n \<and> n \<le> 30) \<or> n = 133)"

definition lstrip :: "string \<Rightarrow> string" where
  "lstrip s = dropWhile is_space s"

definition rstrip :: "string \<Rightarrow> string" where
  "rstrip s = rev (dropWhile is_space (rev s))"

definition strip :: "string \<Rightarrow> string" where
  "strip s = rstrip (lstrip s)"

text \<open>\<open>str.splitlines()\<close>: the line terminators are dropped, CR LF is one terminator,
  and a terminator at the very end opens no further line.\<close>

fun splitlines :: "string \<Rightarrow> string list" where
  "splitlines [] = []"
| "splitlines [c] = (if is_linebreak c then [[]] else [[c]])"
| "splitlines (c # c' # cs) =
     (if is_linebreak c
      then [] # (if c = CR \<and> c' = LF then splitlines cs else splitlines (c' # cs))
      else (case splitlines (c' # cs) of
              [] \<Rightarrow> [[c]]
            | l # ls \<Rightarrow> (c # l) # ls))"

text \<open>\<open>line.count(d)\<close> for a one-character \<open>d\<close>.\<close>

definition str_count :: "char \<Rightarrow> string \<Rightarrow> nat" where
  "str_count d line = length (filter (\<lambda>c. c = d) line)"

text \<open>\<open>s.startswith(c)\<close> and \<open>s.endswith(suffix)\<close>.\<close>

definition startswith :: "string \<Rightarrow> char \<Rightarrow> bool" where
  "startswith s c = (case s of [] \<Rightarrow> False | x # _ \<Rightarrow> x = c)"

definition endswith :: "string \<Rightarrow> string \<Rightarrow> bool" where
  "endswith s suffix = (length suffix \<le> length s \<and> drop (length s - length suffix) s = suffix)"

datatype py_error =
    ZeroDivisionError
  | FileNotFoundError
  | IsADirectoryError
  | PermissionError
  | BadGzipFile
  | ImportError
  | EmptyDataError
  | ParserError
  | CsvError

section \<open>Delimiter detection\<close>

text \<open>
  \<open>detect_delimiter\<close> computes \<open>mean\<close>, \<open>var\<close> and \<open>score\<close> in Python floats.
  \<open>mean_of\<close>, \<open>var_of\<close> and \<open>score_of\<close> compute them in exact rational arithmetic;
  the two agree wherever the intermediate values are binary fractions of small
  size, as they are at every concrete sample evaluated in this theory, and can
  differ by a rounding error elsewhere. Statements about every sample that depend
  on the scores are therefore made about \<open>detect_delimiter_by\<close> below, which takes
  the scoring as a parameter.
\<close>

definition delims :: "char list" where
  "delims = [TAB, CHR '';'', CHR '','', CHR ''|'', CHR '' '']"

text \<open>The list comprehension \<open>[line.count(d) for line in lines if line.strip()]\<close>.\<close>

definition counts_of :: "char \<Rightarrow> string list \<Rightarrow> nat list" where
  "counts_of d lines = map (str_count d) (filter (\<lambda>line. strip line \<noteq> []) lines)"

text \<open>The two divisions by \<open>len(counts)\<close> raise on an empty list.\<close>

definition mean_of :: "nat list \<Rightarrow> py_error + rat" where
  "mean_of counts =
     (if length counts = 0 then Inl ZeroDivisionError
      else Inr (of_nat (sum_list counts) / of_nat (length counts)))"

definition var_of :: "rat \<Rightarrow> nat list \<Rightarrow> py_error + rat" where
  "var_of mean counts =
     (if length counts = 0 then Inl ZeroDivisionError
      else Inr (sum_list (map (\<lambda>c. (of_nat c - mean)\<^sup>2) counts) / of_nat (length counts)))"

definition score_of :: "nat list \<Rightarrow> py_error + rat" where
  "score_of counts =
     (case mean_of counts of
        Inl e \<Rightarrow> Inl e
      | Inr mean \<Rightarrow>
          (case var_of mean counts of
             Inl e \<Rightarrow> Inl e
           | Inr var \<Rightarrow> Inr (mean - var)))"

text \<open>The \<open>for d in delims\<close> loop, threading \<open>best\<close> and \<open>best_score\<close>.\<close>

fun detect_loop :: "string list \<Rightarrow> char list \<Rightarrow> char \<Rightarrow> rat \<Rightarrow> py_error + char" where
  "detect_loop lines [] best best_score = Inr best"
| "detect_loop lines (d # ds) best best_score =
     (let counts = counts_of d lines
      in if counts = [] then detect_loop lines ds best best_score
         else (case score_of counts of
                 Inl e \<Rightarrow> Inl e
               | Inr score \<Rightarrow>
                   if score > best_score then detect_loop lines ds d score
                   else detect_loop lines ds best best_score))"

definition detect_delimiter :: "string \<Rightarrow> py_error + char" where
  "detect_delimiter sample =
     (let lines = splitlines (strip sample)
      in detect_loop lines delims (delims ! 0) (- 1))"

text \<open>
  The same function with lines 30 to 32 of the source, which compute the score of
  a list of counts, as the parameter \<open>score\<close>. A finite double is a rational
  number, so the scoring the code performs in doubles is one such function, and
  what holds for every \<open>score\<close> holds for it; \<open>score_of\<close> is another.
\<close>

fun detect_loop_by ::
    "(nat list \<Rightarrow> py_error + rat) \<Rightarrow> string list \<Rightarrow> char list \<Rightarrow> char \<Rightarrow> rat \<Rightarrow> py_error + char"
where
  "detect_loop_by score lines [] best best_score = Inr best"
| "detect_loop_by score lines (d # ds) best best_score =
     (let counts = counts_of d lines
      in if counts = [] then detect_loop_by score lines ds best best_score
         else (case score counts of
                 Inl e \<Rightarrow> Inl e
               | Inr s \<Rightarrow>
                   if s > best_score then detect_loop_by score lines ds d s
                   else detect_loop_by score lines ds best best_score))"

definition detect_delimiter_by :: "(nat list \<Rightarrow> py_error + rat) \<Rightarrow> string \<Rightarrow> py_error + char" where
  "detect_delimiter_by score sample =
     (let lines = splitlines (strip sample)
      in detect_loop_by score lines delims (delims ! 0) (- 1))"

text \<open>
  The score in the spec's words, \<open>mean_occurrence_count - variance_of_occurrence_count\<close>,
  for comparison with \<open>score_of\<close>.
\<close>

definition spec_score :: "nat list \<Rightarrow> rat" where
  "spec_score counts =
     (let n = of_nat (length counts);
          mean = of_nat (sum_list counts) / n;
          var = sum_list (map (\<lambda>c. (of_nat c - mean)\<^sup>2) counts) / n
      in mean - var)"

definition cand_score :: "string list \<Rightarrow> char \<Rightarrow> rat" where
  "cand_score lines d = spec_score (counts_of d lines)"

text \<open>A sample has a non-blank line; a candidate occurs in some non-blank line.\<close>

definition has_nonblank :: "string list \<Rightarrow> bool" where
  "has_nonblank lines = (filter (\<lambda>line. strip line \<noteq> []) lines \<noteq> [])"

definition occurs_in :: "char \<Rightarrow> string list \<Rightarrow> bool" where
  "occurs_in d lines =
     (filter (\<lambda>c. c \<noteq> 0) (counts_of d lines) \<noteq> [])"

section \<open>Files\<close>

text \<open>
  A regular file is described by the two ways the program can read its bytes:
  \<open>raw\<close> is the bytes decoded as UTF-8 with replacement, \<open>gunzipped\<close> is the
  decoded payload when the bytes are a gzip stream, and \<open>None\<close> when they are not.
  \<open>writable\<close> says whether \<open>open(path, "w")\<close> succeeds, \<open>has_pandas\<close> whether
  \<open>import pandas\<close> does. A gzip stream is whole or not one at all: a stream that
  breaks off after some lines is not represented.
\<close>

datatype node = Directory | Regular (raw: string) (gunzipped: "string option")

record world =
  nodes :: "string \<Rightarrow> node option"
  writable :: "string \<Rightarrow> bool"
  has_pandas :: bool

datatype stream = PlainStream string | GzipStream string

definition path_exists :: "world \<Rightarrow> string \<Rightarrow> bool" where
  "path_exists w path = (nodes w path \<noteq> None)"

text \<open>Opening a path for reading, plainly (\<open>open\<close>) or through \<open>gzip.open\<close>.\<close>

definition open_plain :: "world \<Rightarrow> string \<Rightarrow> py_error + stream" where
  "open_plain w path =
     (case nodes w path of
        None \<Rightarrow> Inl FileNotFoundError
      | Some Directory \<Rightarrow> Inl IsADirectoryError
      | Some (Regular r g) \<Rightarrow> Inr (PlainStream path))"

definition open_gzip :: "world \<Rightarrow> string \<Rightarrow> py_error + stream" where
  "open_gzip w path =
     (case nodes w path of
        None \<Rightarrow> Inl FileNotFoundError
      | Some Directory \<Rightarrow> Inl IsADirectoryError
      | Some (Regular r g) \<Rightarrow> Inr (GzipStream path))"

definition open_maybe_gzip :: "world \<Rightarrow> string \<Rightarrow> py_error + stream" where
  "open_maybe_gzip w path =
     (if endswith path ''.gz'' then open_gzip w path else open_plain w path)"

text \<open>Text mode with the default \<open>newline=None\<close> turns CR LF and CR into LF.\<close>

fun universal_newlines :: "string \<Rightarrow> string" where
  "universal_newlines [] = []"
| "universal_newlines [c] = (if c = CR then [LF] else [c])"
| "universal_newlines (c # c' # cs) =
     (if c = CR
      then LF # (if c' = LF then universal_newlines cs else universal_newlines (c' # cs))
      else c # universal_newlines (c' # cs))"

text \<open>
  The text a stream delivers. The gzip header is checked at the first read, so a
  file that is not a gzip stream fails here and not in \<open>open_gzip\<close>.
\<close>

definition read_text :: "world \<Rightarrow> stream \<Rightarrow> py_error + string" where
  "read_text w f =
     (case f of
        PlainStream path \<Rightarrow>
          (case nodes w path of
             Some (Regular r g) \<Rightarrow> Inr (universal_newlines r)
           | Some Directory \<Rightarrow> Inl IsADirectoryError
           | None \<Rightarrow> Inl FileNotFoundError)
      | GzipStream path \<Rightarrow>
          (case nodes w path of
             Some (Regular r g) \<Rightarrow>
               (case g of None \<Rightarrow> Inl BadGzipFile | Some t \<Rightarrow> Inr (universal_newlines t))
           | Some Directory \<Rightarrow> Inl IsADirectoryError
           | None \<Rightarrow> Inl FileNotFoundError))"

text \<open>The lines a text file yields, by \<open>readline\<close> or by iteration: each keeps its LF.\<close>

fun file_lines :: "string \<Rightarrow> string list" where
  "file_lines [] = []"
| "file_lines (c # cs) =
     (if c = LF then [c] # file_lines cs
      else (case file_lines cs of
              [] \<Rightarrow> [[c]]
            | l # ls \<Rightarrow> (c # l) # ls))"

definition read_preview :: "world \<Rightarrow> string \<Rightarrow> nat \<Rightarrow> py_error + string" where
  "read_preview w path n =
     (case open_maybe_gzip w path of
        Inl e \<Rightarrow> Inl e
      | Inr f \<Rightarrow>
          (case read_text w f of
             Inl e \<Rightarrow> Inl e
           | Inr text \<Rightarrow> Inr (concat (take n (file_lines text)))))"

text \<open>
  \<open>open(outpath, "w", newline="")\<close> empties the file; an empty file reads as empty
  through gzip too. Text written afterwards is UTF-8 and is never a gzip stream.
\<close>

definition truncate_file :: "world \<Rightarrow> string \<Rightarrow> world" where
  "truncate_file w path = w\<lparr>nodes := (nodes w)(path \<mapsto> Regular [] (Some []))\<rparr>"

definition write_file :: "world \<Rightarrow> string \<Rightarrow> string \<Rightarrow> world" where
  "write_file w path text =
     w\<lparr>nodes := (nodes w)(path \<mapsto> Regular text (if text = [] then Some [] else None))\<rparr>"

section \<open>The csv module\<close>

text \<open>
  \<open>csv.reader(fin, delimiter=delimiter)\<close> with the other settings of the default
  dialect: quote character \<open>"\<close>, doubled quotes, no escape character, no skipping of
  initial spaces, not strict. The reader is the character automaton of the standard
  library; \<open>None\<close> is the end-of-line mark fed after the last character of a line.
\<close>

datatype parser_state =
    START_RECORD | START_FIELD | IN_FIELD | IN_QUOTED_FIELD | QUOTE_IN_QUOTED_FIELD | EAT_CRNL

record reader =
  state :: parser_state
  fieldlist :: "string list"
  field :: string

definition quotechar :: char where "quotechar = CHR 0x22"

definition field_limit :: nat where "field_limit = 131072"

definition parse_reset :: reader where
  "parse_reset = \<lparr>state = START_RECORD, fieldlist = [], field = []\<rparr>"

definition parse_save_field :: "reader \<Rightarrow> reader" where
  "parse_save_field r = r\<lparr>fieldlist := fieldlist r @ [field r], field := []\<rparr>"

definition parse_add_char :: "reader \<Rightarrow> char \<Rightarrow> py_error + reader" where
  "parse_add_char r c =
     (if length (field r) \<ge> field_limit then Inl CsvError
      else Inr (r\<lparr>field := field r @ [c]\<rparr>))"

definition is_eol :: "char option \<Rightarrow> bool" where
  "is_eol c = (case c of None \<Rightarrow> True | Some x \<Rightarrow> x = LF \<or> x = CR)"

definition after_eol :: "char option \<Rightarrow> parser_state" where
  "after_eol c = (case c of None \<Rightarrow> START_RECORD | Some x \<Rightarrow> EAT_CRNL)"

definition start_field :: "char \<Rightarrow> reader \<Rightarrow> char option \<Rightarrow> py_error + reader" where
  "start_field d r c =
     (if is_eol c then Inr ((parse_save_field r)\<lparr>state := after_eol c\<rparr>)
      else if c = Some quotechar then Inr (r\<lparr>state := IN_QUOTED_FIELD\<rparr>)
      else if c = Some d then Inr ((parse_save_field r)\<lparr>state := START_FIELD\<rparr>)
      else (case parse_add_char r (the c) of
              Inl e \<Rightarrow> Inl e
            | Inr r' \<Rightarrow> Inr (r'\<lparr>state := IN_FIELD\<rparr>)))"

definition parse_process_char :: "char \<Rightarrow> reader \<Rightarrow> char option \<Rightarrow> py_error + reader" where
  "parse_process_char d r c =
     (case state r of
        START_RECORD \<Rightarrow>
          (if c = None then Inr r
           else if is_eol c then Inr (r\<lparr>state := EAT_CRNL\<rparr>)
           else start_field d (r\<lparr>state := START_FIELD\<rparr>) c)
      | START_FIELD \<Rightarrow> start_field d r c
      | IN_FIELD \<Rightarrow>
          (if is_eol c then Inr ((parse_save_field r)\<lparr>state := after_eol c\<rparr>)
           else if c = Some d then Inr ((parse_save_field r)\<lparr>state := START_FIELD\<rparr>)
           else parse_add_char r (the c))
      | IN_QUOTED_FIELD \<Rightarrow>
          (if c = None then Inr r
           else if c = Some quotechar then Inr (r\<lparr>state := QUOTE_IN_QUOTED_FIELD\<rparr>)
           else parse_add_char r (the c))
      | QUOTE_IN_QUOTED_FIELD \<Rightarrow>
          (if c = Some quotechar then
             (case parse_add_char r quotechar of
                Inl e \<Rightarrow> Inl e
              | Inr r' \<Rightarrow> Inr (r'\<lparr>state := IN_QUOTED_FIELD\<rparr>))
           else if c = Some d then Inr ((parse_save_field r)\<lparr>state := START_FIELD\<rparr>)
           else if is_eol c then Inr ((parse_save_field r)\<lparr>state := after_eol c\<rparr>)
           else (case parse_add_char r (the c) of
                   Inl e \<Rightarrow> Inl e
                 | Inr r' \<Rightarrow> Inr (r'\<lparr>state := IN_FIELD\<rparr>)))
      | EAT_CRNL \<Rightarrow>
          (if c = None then Inr (r\<lparr>state := START_RECORD\<rparr>)
           else if is_eol c then Inr r
           else Inl CsvError))"

fun parse_chars :: "char \<Rightarrow> reader \<Rightarrow> char option list \<Rightarrow> py_error + reader" where
  "parse_chars d r [] = Inr r"
| "parse_chars d r (c # cs) =
     (case parse_process_char d r c of
        Inl e \<Rightarrow> Inl e
      | Inr r' \<Rightarrow> parse_chars d r' cs)"

definition parse_line :: "char \<Rightarrow> reader \<Rightarrow> string \<Rightarrow> py_error + reader" where
  "parse_line d r line = parse_chars d r (map Some line @ [None])"

text \<open>
  The records the reader yields from the lines of the file, with the error that
  ends the iteration early, if any. A record is complete when a line ends in state
  \<open>START_RECORD\<close>; input that ends inside a record yields what was read so far.
\<close>

fun csv_reader_from :: "char \<Rightarrow> reader \<Rightarrow> string list \<Rightarrow> string list list \<times> py_error option" where
  "csv_reader_from d r [] =
     (if field r \<noteq> [] \<or> state r = IN_QUOTED_FIELD
      then ([fieldlist (parse_save_field r)], None)
      else ([], None))"
| "csv_reader_from d r (line # rest) =
     (case parse_line d r line of
        Inl e \<Rightarrow> ([], Some e)
      | Inr r' \<Rightarrow>
          if state r' = START_RECORD
          then (case csv_reader_from d parse_reset rest of
                  (rows, err) \<Rightarrow> (fieldlist r' # rows, err))
          else csv_reader_from d r' rest)"

definition csv_reader :: "string list \<Rightarrow> char \<Rightarrow> string list list \<times> py_error option" where
  "csv_reader lines delimiter = csv_reader_from delimiter parse_reset lines"

text \<open>
  \<open>csv.writer(fout).writerow(row)\<close> with minimal quoting: a field is quoted when it
  holds the comma, the quote character or a character of the line terminator; a
  quote inside is doubled; a record of one empty field is written as \<open>""\<close>.
\<close>

definition join_append :: "string \<Rightarrow> string \<Rightarrow> string" where
  "join_append lineterminator f =
     (let body = concat (map (\<lambda>c. if c = quotechar then [quotechar, quotechar] else [c]) f);
          quoted = (\<exists>c \<in> set f. c = CHR '','' \<or> c = quotechar \<or> c \<in> set lineterminator)
      in if quoted then [quotechar] @ body @ [quotechar] else body)"

fun join_fields :: "string list \<Rightarrow> string" where
  "join_fields [] = []"
| "join_fields [f] = f"
| "join_fields (f # g # fs) = f @ [CHR '',''] @ join_fields (g # fs)"

definition writerow :: "string \<Rightarrow> string list \<Rightarrow> string" where
  "writerow lineterminator row =
     (let rec = join_fields (map (join_append lineterminator) row)
      in (if row \<noteq> [] \<and> rec = [] then [quotechar, quotechar] else rec) @ lineterminator)"

text \<open>Splitting a line at every delimiter, and a line without its final LF.\<close>

fun split_on :: "char \<Rightarrow> string \<Rightarrow> string list" where
  "split_on d [] = [[]]"
| "split_on d (c # cs) =
     (if c = d then [] # split_on d cs
      else (case split_on d cs of
              [] \<Rightarrow> [[c]]
            | l # ls \<Rightarrow> (c # l) # ls))"

definition chomp :: "string \<Rightarrow> string" where
  "chomp line = (if line \<noteq> [] \<and> last line = LF then butlast line else line)"

text \<open>
  What the reader yields for a line without quote characters: nothing for an empty
  line, otherwise the pieces between the delimiters. \<open>plain_line\<close> is such a line
  of a text file, short enough for the field limit.
\<close>

definition row_of_line :: "char \<Rightarrow> string \<Rightarrow> string list" where
  "row_of_line d line = (if chomp line = [] then [] else split_on d (chomp line))"

definition plain_line :: "string \<Rightarrow> bool" where
  "plain_line line =
     (line \<noteq> [] \<and> LF \<notin> set (butlast line) \<and> CR \<notin> set line \<and> quotechar \<notin> set line
      \<and> length line \<le> field_limit)"

section \<open>The fallback conversion\<close>

text \<open>A comment line in the spec's words: its first non-whitespace character is the
  comment marker. \<open>is_comment_row\<close> is the test the code makes on a row.\<close>

definition is_comment_line :: "char \<Rightarrow> string \<Rightarrow> bool" where
  "is_comment_line comment line = startswith (lstrip line) comment"

definition is_comment_row :: "char \<Rightarrow> string list \<Rightarrow> bool" where
  "is_comment_row comment row =
     (case row of [] \<Rightarrow> False | f # _ \<Rightarrow> startswith (lstrip f) comment)"

text \<open>
  The input is opened first, then the output, which empties it; rows are read and
  written one at a time, so the rows before a reader error are in the file.
\<close>

definition convert_fallback ::
    "world \<Rightarrow> string \<Rightarrow> string \<Rightarrow> char \<Rightarrow> char \<Rightarrow> world \<times> (py_error + unit)" where
  "convert_fallback w inpath outpath delimiter comment =
     (case open_maybe_gzip w inpath of
        Inl e \<Rightarrow> (w, Inl e)
      | Inr fin \<Rightarrow>
          if \<not> writable w outpath then (w, Inl PermissionError)
          else
            (let w1 = truncate_file w outpath
             in case read_text w1 fin of
                  Inl e \<Rightarrow> (w1, Inl e)
                | Inr text \<Rightarrow>
                    (case csv_reader (file_lines text) delimiter of
                       (rows, err) \<Rightarrow>
                         (let kept = filter (\<lambda>row. \<not> is_comment_row comment row) rows;
                              w2 = write_file w1 outpath (concat (map (writerow [CR, LF]) kept))
                          in (w2, case err of None \<Rightarrow> Inr () | Some e \<Rightarrow> Inl e)))))"

section \<open>The structured conversion\<close>

record dataframe =
  columns :: "string list"
  rows :: "string list list"

text \<open>
  Modelled from the spec: \<open>pd.read_csv\<close> belongs to pandas, a library that is not
  part of the source. Section 4.2 of the spec describes the structured path as
  parsing the entire input as a delimited table using the chosen delimiter, lines
  whose content matches the comment marker being excluded prior to parsing, every
  cell read as raw text; section 3 gives every row the number of fields of the
  header, and section 7 names a malformed table and a missing header as failures.
  Blank lines are dropped, as pandas does by default. Opening the input is the
  spec's single opening of the source stream, \<open>open_maybe_gzip\<close>.
\<close>

definition pd_read_csv :: "world \<Rightarrow> string \<Rightarrow> char \<Rightarrow> char \<Rightarrow> py_error + dataframe" where
  "pd_read_csv w inpath sep comment =
     (case open_maybe_gzip w inpath of
        Inl e \<Rightarrow> Inl e
      | Inr f \<Rightarrow>
          (case read_text w f of
             Inl e \<Rightarrow> Inl e
           | Inr text \<Rightarrow>
               (let content = filter (\<lambda>l. strip l \<noteq> [] \<and> \<not> startswith (lstrip l) comment)
                                (map chomp (file_lines text))
                in case map (split_on sep) content of
                     [] \<Rightarrow> Inl EmptyDataError
                   | header # body \<Rightarrow>
                       if list_all (\<lambda>row. length row = length header) body
                       then Inr \<lparr>columns = header, rows = body\<rparr>
                       else Inl ParserError)))"

text \<open>
  Modelled from the spec: \<open>DataFrame.to_csv\<close> belongs to pandas as well. Section 4.2:
  the full table is written as comma-separated text including a header line, with
  standard quoting (fields containing the output delimiter, quote characters or
  newlines are quoted, embedded quotes doubled); each record ends in LF.
\<close>

definition to_csv :: "world \<Rightarrow> dataframe \<Rightarrow> string \<Rightarrow> py_error + world" where
  "to_csv w df outpath =
     (if \<not> writable w outpath then Inl PermissionError
      else Inr (write_file w outpath (concat (map (writerow [LF]) (columns df # rows df)))))"

definition convert_with_pandas ::
    "world \<Rightarrow> string \<Rightarrow> string \<Rightarrow> char \<Rightarrow> char \<Rightarrow> world \<times> (py_error + dataframe)" where
  "convert_with_pandas w inpath outpath delimiter comment =
     (if \<not> has_pandas w then (w, Inl ImportError)
      else
        (case pd_read_csv w inpath delimiter comment of
           Inl e \<Rightarrow> (w, Inl e)
         | Inr df0 \<Rightarrow>
             (let df = df0\<lparr>columns := map strip (columns df0)\<rparr>
              in case to_csv w df outpath of
                   Inl e \<Rightarrow> (w, Inl e)
                 | Inr w' \<Rightarrow> (w', Inr df))))"

section \<open>The command line\<close>

text \<open>
  What a run leaves behind. \<open>stdout\<close> holds the printed lines in order, a formatted
  line as a constructor with the values it shows. \<open>attempts\<close> lists, in order, the
  conversion functions \<open>main\<close> called. \<open>final\<close> is the file system at the end.
\<close>

datatype out_line =
    Text string
  | InputNotFound string
  | DetectedDelimiter char
  | WroteTable string nat nat
  | PandasFailed py_error
  | Wrote string
  | FallbackFailed py_error

datatype attempt = StructuredAttempt | FallbackAttempt

datatype ending = Returned | SysExit nat | Uncaught py_error

record run =
  ending :: ending
  stdout :: "out_line list"
  attempts :: "attempt list"
  final :: world

text \<open>The status the shell sees: 0 on return, the argument of \<open>sys.exit\<close>, 1 after a
  traceback.\<close>

definition exit_status :: "run \<Rightarrow> nat" where
  "exit_status r = (case ending r of Returned \<Rightarrow> 0 | SysExit n \<Rightarrow> n | Uncaught e \<Rightarrow> 1)"

definition comment_char :: char where "comment_char = CHR ''#''"

definition main :: "world \<Rightarrow> string list \<Rightarrow> run" where
  "main w argv =
     (if length argv < 3 then
        \<lparr>ending = SysExit 1,
         stdout = [Text ''Usage: python rtab_to_csv.py input.rtab output.csv''],
         attempts = [], final = w\<rparr>
      else
        (let inpath = argv ! 1; outpath = argv ! 2
         in if \<not> path_exists w inpath then
              \<lparr>ending = SysExit 2, stdout = [InputNotFound inpath], attempts = [], final = w\<rparr>
            else
              (case read_preview w inpath 20 of
                 Inl e \<Rightarrow> \<lparr>ending = Uncaught e, stdout = [], attempts = [], final = w\<rparr>
               | Inr sample \<Rightarrow>
                   (let out1 = [Text ''=== file preview ==='',
                                Text (if sample \<noteq> [] then sample else ''(file empty)'')]
                    in case detect_delimiter sample of
                         Inl e \<Rightarrow> \<lparr>ending = Uncaught e, stdout = out1, attempts = [], final = w\<rparr>
                       | Inr delim \<Rightarrow>
                           (let out2 = out1 @ [DetectedDelimiter delim,
                                               Text ''Trying to convert with pandas...'']
                            in case convert_with_pandas w inpath outpath delim comment_char of
                                 (w1, Inr df) \<Rightarrow>
                                   \<lparr>ending = Returned,
                                    stdout = out2 @ [WroteTable outpath (length (rows df))
                                                       (length (columns df))],
                                    attempts = [StructuredAttempt], final = w1\<rparr>
                               | (w1, Inl e) \<Rightarrow>
                                   (let out3 = out2 @ [PandasFailed e]
                                    in case convert_fallback w1 inpath outpath delim comment_char of
                                         (w2, Inr u) \<Rightarrow>
                                           \<lparr>ending = Returned, stdout = out3 @ [Wrote outpath],
                                            attempts = [StructuredAttempt, FallbackAttempt],
                                            final = w2\<rparr>
                                       | (w2, Inl e2) \<Rightarrow>
                                           \<lparr>ending = SysExit 3,
                                            stdout = out3 @ [FallbackFailed e2],
                                            attempts = [StructuredAttempt, FallbackAttempt],
                                            final = w2\<rparr>))))))"

text \<open>The four lines \<open>main\<close> prints before it converts.\<close>

definition preview_lines :: "string \<Rightarrow> char \<Rightarrow> out_line list" where
  "preview_lines sample delim =
     [Text ''=== file preview ==='', Text (if sample \<noteq> [] then sample else ''(file empty)''),
      DetectedDelimiter delim, Text ''Trying to convert with pandas...'']"

section \<open>Concrete inputs\<close>

text \<open>Two lines, the first with six tabs and four of every other candidate, the
  second with none of them.\<close>

definition erratic_sample :: string where
  "erratic_sample =
     ''x'' @ replicate 6 TAB @ '';;;;,,,,||||    x'' @ [LF] @ ''x''"

text \<open>Two lines, the first with three tabs, the second with none; no other candidate
  occurs.\<close>

definition three_tabs_sample :: string where
  "three_tabs_sample = ''a'' @ [TAB, TAB, TAB] @ ''b'' @ [LF] @ ''c''"

text \<open>The table of the spec's scenario and its conversion.\<close>

definition table_text :: string where
  "table_text = ''a'' @ [TAB] @ ''b'' @ [TAB] @ ''c'' @ [LF]
              @ ''1'' @ [TAB] @ ''2'' @ [TAB] @ ''3'' @ [LF]
              @ ''4'' @ [TAB] @ ''5'' @ [TAB] @ ''6'' @ [LF]"

definition table_csv :: string where
  "table_csv = ''a,b,c'' @ [LF] @ ''1,2,3'' @ [LF] @ ''4,5,6'' @ [LF]"

text \<open>A tab-separated table whose second line is an indented comment.\<close>

definition noted_text :: string where
  "noted_text = ''a'' @ [TAB] @ ''b'' @ [LF]
              @ [TAB] @ ''# note'' @ [LF]
              @ ''1'' @ [TAB] @ ''2'' @ [LF]"

definition noted_csv :: string where
  "noted_csv = ''a,b'' @ [CR, LF] @ '',# note'' @ [CR, LF] @ ''1,2'' @ [CR, LF]"

text \<open>Three lines: a quoted field that runs over the first two, then \<open>c\<close>.\<close>

definition quoted_text :: string where
  "quoted_text = [quotechar] @ ''a'' @ [LF] @ ''b'' @ [quotechar] @ [LF] @ ''c'' @ [LF]"

definition quoted_csv :: string where
  "quoted_csv = [quotechar] @ ''a'' @ [LF] @ ''b'' @ [quotechar] @ [CR, LF] @ ''c'' @ [CR, LF]"

text \<open>A table with an empty line after the header.\<close>

definition gapped_text :: string where
  "gapped_text = ''a'' @ [TAB] @ ''b'' @ [LF] @ [LF] @ ''1'' @ [TAB] @ ''2'' @ [LF]"

text \<open>A file system with these files, one path that cannot be written, and pandas.\<close>

definition demo_world :: world where
  "demo_world =
     \<lparr>nodes = [''in.rtab'' \<mapsto> Regular table_text None,
               ''in.rtab.gz'' \<mapsto> Regular ''?'' (Some table_text),
               ''empty.rtab'' \<mapsto> Regular [] (Some []),
               ''noted.rtab'' \<mapsto> Regular noted_text None,
               ''gapped.rtab'' \<mapsto> Regular gapped_text None,
               ''quoted.rtab'' \<mapsto> Regular quoted_text None],
      writable = (\<lambda>path. path \<noteq> ''locked.csv''),
      has_pandas = True\<rparr>"

text \<open>The table of the scenario as the fallback writes it.\<close>

definition table_crlf :: string where
  "table_crlf = ''a,b,c'' @ [CR, LF] @ ''1,2,3'' @ [CR, LF] @ ''4,5,6'' @ [CR, LF]"

text \<open>The same file system without pandas.\<close>

definition bare_world :: world where
  "bare_world = demo_world\<lparr>has_pandas := False\<rparr>"

text \<open>A table with a comment line and an empty line after the header, and a file
  system that holds it.\<close>

definition remark_text :: string where
  "remark_text = ''a'' @ [TAB] @ ''b'' @ [LF] @ ''# note'' @ [LF] @ [LF]
               @ ''1'' @ [TAB] @ ''2'' @ [LF]"

definition remark_csv :: string where
  "remark_csv = ''a,b'' @ [CR, LF] @ [CR, LF] @ ''1,2'' @ [CR, LF]"

definition remark_world :: world where
  "remark_world =
     \<lparr>nodes = [''remark.rtab'' \<mapsto> Regular remark_text None],
      writable = (\<lambda>path. True),
      has_pandas = False\<rparr>"

section \<open>Properties of the delimiter detection\<close>

lemma counts_of_Nil_iff: "counts_of d lines = [] \<longleftrightarrow> \<not> has_nonblank lines"
  by (simp add: counts_of_def has_nonblank_def)

lemma score_of_nonempty: "counts \<noteq> [] \<Longrightarrow> score_of counts = Inr (spec_score counts)"
  by (simp add: score_of_def mean_of_def var_of_def spec_score_def Let_def)

lemma strip_all_space: "\<forall>c \<in> set s. is_space c \<Longrightarrow> strip s = []"
proof -
  assume "\<forall>c \<in> set s. is_space c"
  then have "lstrip s = []" by (simp add: lstrip_def)
  then show ?thesis by (simp add: strip_def rstrip_def)
qed

lemma detect_loop_no_lines: "detect_loop [] ds b s = Inr b"
  by (induction ds) (simp_all add: counts_of_def)

lemma spec_score_replicate_zero: "spec_score (replicate k 0) = 0"
  by (simp add: spec_score_def Let_def sum_list_replicate)

text \<open>
  C1 (code defect). The claim: for every sample with a non-blank line
  \<open>detect_delimiter\<close> returns the candidate of the highest score, the first of them
  on a tie. The loop starts from \<open>best_score = -1\<close>, so a candidate is taken only
  if its score exceeds -1. On \<open>erratic_sample\<close> the tab scores -6 and the four
  other candidates score -2; nothing exceeds -1, and the tab is returned although
  the semicolon is the first candidate of the highest score.
\<close>

theorem detect_delimiter_erratic_sample:
  "detect_delimiter erratic_sample = Inr TAB
   \<and> has_nonblank (splitlines (strip erratic_sample))
   \<and> map (cand_score (splitlines (strip erratic_sample))) delims = [- 6, - 2, - 2, - 2, - 2]"
  by code_simp

text \<open>
  C2, as stated, fails: on \<open>three_tabs_sample\<close> the tab scores -3/4, the semicolon,
  which occurs nowhere, scores 0 and is returned.
\<close>

theorem detect_delimiter_three_tabs_sample:
  "has_nonblank (splitlines (strip three_tabs_sample))
   \<and> detect_delimiter three_tabs_sample = Inr (CHR '';'')
   \<and> \<not> occurs_in (CHR '';'') (splitlines (strip three_tabs_sample))
   \<and> CHR '';'' \<noteq> TAB"
  by code_simp

lemma detect_loop_by_score_of: "detect_loop_by score_of lines ds b s = detect_loop lines ds b s"
  by (induction ds arbitrary: b s) (simp_all add: Let_def split: sum.splits)

lemma detect_delimiter_by_score_of: "detect_delimiter_by score_of sample = detect_delimiter sample"
  by (simp add: detect_delimiter_by_def detect_delimiter_def detect_loop_by_score_of
      del: detect_loop.simps detect_loop_by.simps)

lemma detect_loop_by_step:
  "has_nonblank lines \<Longrightarrow> score (counts_of d lines) = Inr v \<Longrightarrow>
   detect_loop_by score lines (d # ds) best best_score =
     (if v > best_score then detect_loop_by score lines ds d v
      else detect_loop_by score lines ds best best_score)"
  by (simp add: counts_of_Nil_iff Let_def)

text \<open>
  What the loop returns over any list of candidates, from any starting pair and for
  any scoring: the first candidate of the highest score if some score exceeds the
  starting \<open>best_score\<close>, the starting \<open>best\<close> otherwise.
\<close>

lemma detect_loop_by_best:
  assumes "has_nonblank lines" and "\<forall>d \<in> set ds. score (counts_of d lines) = Inr (val d)"
  shows "\<exists>r. detect_loop_by score lines ds b s = Inr r \<and>
     (if \<exists>d \<in> set ds. val d > s
      then r \<in> set ds \<and> val r > s
           \<and> (\<forall>d \<in> set ds. val d \<le> val r)
           \<and> (\<forall>d \<in> set (takeWhile (\<lambda>x. x \<noteq> r) ds). val d < val r)
      else r = b)"
  using assms(2)
proof (induction ds arbitrary: b s)
  case Nil
  show ?case by simp
next
  case (Cons d ds)
  have sd: "score (counts_of d lines) = Inr (val d)" using Cons.prems by simp
  have rest_ok: "\<forall>x \<in> set ds. score (counts_of x lines) = Inr (val x)" using Cons.prems by simp
  show ?case
  proof (cases "val d > s")
    case True
    from Cons.IH [OF rest_ok, of d "val d"] obtain r where
      r: "detect_loop_by score lines ds d (val d) = Inr r"
      and rest: "(if \<exists>x \<in> set ds. val x > val d
      then r \<in> set ds \<and> val r > val d
           \<and> (\<forall>x \<in> set ds. val x \<le> val r)
           \<and> (\<forall>x \<in> set (takeWhile (\<lambda>x. x \<noteq> r) ds). val x < val r)
      else r = d)" by blast
    have step: "detect_loop_by score lines (d # ds) b s = Inr r"
      using detect_loop_by_step [where score = score and lines = lines and d = d
          and v = "val d" and ds = ds and best = b and best_score = s] assms(1) sd True r
      by simp
    show ?thesis
    proof (cases "\<exists>x \<in> set ds. val x > val d")
      case ex: True
      with rest have "r \<in> set ds" "val r > val d"
        "\<forall>x \<in> set ds. val x \<le> val r"
        "\<forall>x \<in> set (takeWhile (\<lambda>x. x \<noteq> r) ds). val x < val r"
        by simp_all
      with True step show ?thesis by (auto intro!: exI [of _ r])
    next
      case nex: False
      with rest have "r = d" by simp
      with True step nex show ?thesis by (auto intro!: exI [of _ d] simp: not_less)
    qed
  next
    case False
    from Cons.IH [OF rest_ok, of b s] obtain r where
      r: "detect_loop_by score lines ds b s = Inr r"
      and rest: "(if \<exists>x \<in> set ds. val x > s
      then r \<in> set ds \<and> val r > s
           \<and> (\<forall>x \<in> set ds. val x \<le> val r)
           \<and> (\<forall>x \<in> set (takeWhile (\<lambda>x. x \<noteq> r) ds). val x < val r)
      else r = b)" by blast
    have step: "detect_loop_by score lines (d # ds) b s = Inr r"
      using detect_loop_by_step [where score = score and lines = lines and d = d
          and v = "val d" and ds = ds and best = b and best_score = s] assms(1) sd False r
      by simp
    show ?thesis
    proof (cases "\<exists>x \<in> set ds. val x > s")
      case ex: True
      with rest have f: "r \<in> set ds" "val r > s"
        "\<forall>x \<in> set ds. val x \<le> val r"
        "\<forall>x \<in> set (takeWhile (\<lambda>x. x \<noteq> r) ds). val x < val r"
        by simp_all
      have "d \<noteq> r \<Longrightarrow> val d < val r" using False f(2) by simp
      moreover have "val d \<le> val r" using False f(2) by simp
      ultimately show ?thesis using step f ex by (auto intro!: exI [of _ r])
    next
      case nex: False
      with rest have "r = b" by simp
      with False step nex show ?thesis by (auto intro!: exI [of _ b])
    qed
  qed
qed

lemma counts_of_absent:
  "\<not> occurs_in d lines \<Longrightarrow> counts_of d lines = replicate (length (counts_of d lines)) 0"
proof -
  assume "\<not> occurs_in d lines"
  then have "\<forall>c \<in> set (counts_of d lines). c = 0"
    by (simp add: occurs_in_def filter_empty_conv)
  then show ?thesis by (induction "counts_of d lines") (simp_all add: replicate_length_same)
qed

lemma score_of_zero: "0 < k \<Longrightarrow> score_of (replicate k 0) = Inr 0"
  by (simp add: score_of_nonempty spec_score_replicate_zero)

text \<open>
  C2 (amended). For every sample with at least one non-blank line no candidate is
  skipped: each one is scored, and a candidate that occurs in none of the non-blank
  lines has only zero counts and scores 0. The returned delimiter occurs in some
  non-blank line, or is the default tab, or scores 0 while every candidate before
  it in the ordering scores below 0. The scores are those of the scoring in use:
  the statement is for every scoring of the counts that raises nothing on a
  non-empty list and gives 0 on zero counts, as the code's doubles and the exact
  \<open>score_of\<close> both do.
\<close>

theorem detect_delimiter_absent_candidate:
  assumes "has_nonblank (splitlines (strip sample))"
    and "\<forall>counts. counts \<noteq> [] \<longrightarrow> (\<exists>v. score counts = Inr v)"
    and "\<forall>k. 0 < k \<longrightarrow> score (replicate k 0) = Inr 0"
  shows "(\<forall>d \<in> set delims.
            counts_of d (splitlines (strip sample)) \<noteq> []
            \<and> (\<not> occurs_in d (splitlines (strip sample))
                 \<longrightarrow> score (counts_of d (splitlines (strip sample))) = Inr 0))
         \<and> (\<exists>d. detect_delimiter_by score sample = Inr d \<and> d \<in> set delims
              \<and> (occurs_in d (splitlines (strip sample)) \<or> d = TAB
                 \<or> (score (counts_of d (splitlines (strip sample))) = Inr 0
                    \<and> (\<forall>e \<in> set (takeWhile (\<lambda>x. x \<noteq> d) delims).
                          \<exists>v. score (counts_of e (splitlines (strip sample))) = Inr v
                              \<and> v < 0))))"
proof -
  define lines where "lines = splitlines (strip sample)"
  have nb: "has_nonblank lines" using assms(1) by (simp add: lines_def)
  have ne: "counts_of d lines \<noteq> []" for d using nb by (simp add: counts_of_Nil_iff)
  define val where "val d = (case score (counts_of d lines) of Inr v \<Rightarrow> v | Inl e \<Rightarrow> 0)" for d
  have sc: "score (counts_of d lines) = Inr (val d)" for d
    using assms(2) ne [of d] by (auto simp: val_def)
  have absent: "score (counts_of d lines) = Inr 0" if "\<not> occurs_in d lines" for d
  proof -
    have "0 < length (counts_of d lines)" using ne [of d] by simp
    with assms(3) have "score (replicate (length (counts_of d lines)) 0) = Inr 0" by blast
    with counts_of_absent [OF that] show ?thesis by simp
  qed
  from detect_loop_by_best [OF nb, of delims score val TAB "- 1"] sc obtain r where
    r: "detect_loop_by score lines delims TAB (- 1) = Inr r"
    and best: "(if \<exists>d \<in> set delims. val d > - 1
      then r \<in> set delims \<and> val r > - 1
           \<and> (\<forall>d \<in> set delims. val d \<le> val r)
           \<and> (\<forall>d \<in> set (takeWhile (\<lambda>x. x \<noteq> r) delims). val d < val r)
      else r = TAB)" by blast
  have ret: "detect_delimiter_by score sample = Inr r"
    using r by (simp add: detect_delimiter_by_def lines_def delims_def del: detect_loop_by.simps)
  have mem: "r \<in> set delims"
    using best by (auto simp: delims_def split: if_splits)
  have "occurs_in r lines \<or> r = TAB
        \<or> (score (counts_of r lines) = Inr 0
           \<and> (\<forall>e \<in> set (takeWhile (\<lambda>x. x \<noteq> r) delims).
                 \<exists>v. score (counts_of e lines) = Inr v \<and> v < 0))"
  proof (cases "occurs_in r lines \<or> r = TAB")
    case True
    then show ?thesis by blast
  next
    case False
    then have z: "score (counts_of r lines) = Inr 0" by (simp add: absent)
    with sc [of r] have vz: "val r = 0" by simp
    from False best have
      "\<forall>d \<in> set (takeWhile (\<lambda>x. x \<noteq> r) delims). val d < val r"
      by (auto split: if_splits)
    with vz sc have "\<forall>e \<in> set (takeWhile (\<lambda>x. x \<noteq> r) delims).
                 \<exists>v. score (counts_of e lines) = Inr v \<and> v < 0" by auto
    with z show ?thesis by simp
  qed
  with ret mem ne absent show ?thesis
    unfolding lines_def [symmetric] by blast
qed

theorem detect_delimiter_absent_candidate_witness:
  "has_nonblank (splitlines (strip three_tabs_sample))
   \<and> (\<exists>d. detect_delimiter_by score_of three_tabs_sample = Inr d \<and> d \<in> set delims
          \<and> (occurs_in d (splitlines (strip three_tabs_sample)) \<or> d = TAB
             \<or> score_of (counts_of d (splitlines (strip three_tabs_sample))) = Inr 0))
   \<and> detect_delimiter_by score_of three_tabs_sample = Inr (CHR '';'')"
proof -
  have h: "has_nonblank (splitlines (strip three_tabs_sample))" by code_simp
  have t: "\<forall>counts. counts \<noteq> [] \<longrightarrow> (\<exists>v. score_of counts = Inr v)"
    by (simp add: score_of_nonempty)
  have z: "\<forall>k. 0 < k \<longrightarrow> score_of (replicate k 0) = Inr 0"
    by (simp add: score_of_zero)
  have r: "detect_delimiter_by score_of three_tabs_sample = Inr (CHR '';'')"
    unfolding detect_delimiter_by_score_of by code_simp
  from detect_delimiter_absent_candidate [OF h t z] h r show ?thesis by blast
qed

text \<open>
  C7. For every sample that is empty or holds only whitespace characters,
  \<open>detect_delimiter\<close> returns the default first candidate, the tab, and raises
  nothing.
\<close>

theorem detect_delimiter_blank_sample:
  "\<forall>c \<in> set sample. is_space c \<Longrightarrow> detect_delimiter sample = Inr TAB"
  by (simp add: detect_delimiter_def strip_all_space detect_loop_no_lines delims_def
      del: detect_loop.simps)

theorem detect_delimiter_blank_sample_witness:
  "list_all is_space ('' '' @ [TAB, LF]) \<and> detect_delimiter ('' '' @ [TAB, LF]) = Inr TAB"
proof -
  have h: "\<forall>c \<in> set ('' '' @ [TAB, LF]). is_space c"
    by (simp add: is_space_def TAB_def LF_def)
  from detect_delimiter_blank_sample [OF h] h show ?thesis
    by (simp add: list_all_iff)
qed

section \<open>Properties of the command line\<close>

lemma detect_loop_total: "\<exists>r. detect_loop lines ds b s = Inr r"
proof (induction ds arbitrary: b s)
  case Nil
  show ?case by simp
next
  case (Cons d ds)
  show ?case
  proof (cases "counts_of d lines = []")
    case True
    with Cons.IH [of b s] show ?thesis by simp
  next
    case False
    then have "score_of (counts_of d lines) = Inr (spec_score (counts_of d lines))"
      by (rule score_of_nonempty)
    with False Cons.IH [of b s] Cons.IH [of d "spec_score (counts_of d lines)"]
    show ?thesis by (simp add: Let_def)
  qed
qed

lemma detect_delimiter_total: "\<exists>d. detect_delimiter sample = Inr d"
  unfolding detect_delimiter_def Let_def by (rule detect_loop_total)

lemma main_usage:
  "length argv < 3 \<Longrightarrow>
   main w argv = \<lparr>ending = SysExit 1,
         stdout = [Text ''Usage: python rtab_to_csv.py input.rtab output.csv''],
         attempts = [], final = w\<rparr>"
  by (simp add: main_def)

lemma main_not_found:
  "\<not> length argv < 3 \<Longrightarrow> \<not> path_exists w (argv ! 1) \<Longrightarrow>
   main w argv = \<lparr>ending = SysExit 2, stdout = [InputNotFound (argv ! 1)], attempts = [], final = w\<rparr>"
  by (simp add: main_def)

lemma main_preview_error:
  "\<not> length argv < 3 \<Longrightarrow> path_exists w (argv ! 1) \<Longrightarrow> read_preview w (argv ! 1) 20 = Inl e \<Longrightarrow>
   main w argv = \<lparr>ending = Uncaught e, stdout = [], attempts = [], final = w\<rparr>"
  by (simp add: main_def)

lemma main_structured:
  "\<not> length argv < 3 \<Longrightarrow> path_exists w (argv ! 1) \<Longrightarrow> read_preview w (argv ! 1) 20 = Inr sample \<Longrightarrow>
   detect_delimiter sample = Inr delim \<Longrightarrow>
   convert_with_pandas w (argv ! 1) (argv ! 2) delim comment_char = (w1, Inr df) \<Longrightarrow>
   main w argv = \<lparr>ending = Returned,
      stdout = preview_lines sample delim @ [WroteTable (argv ! 2) (length (rows df)) (length (columns df))],
      attempts = [StructuredAttempt], final = w1\<rparr>"
  by (simp add: main_def preview_lines_def)

lemma main_fallback:
  "\<not> length argv < 3 \<Longrightarrow> path_exists w (argv ! 1) \<Longrightarrow> read_preview w (argv ! 1) 20 = Inr sample \<Longrightarrow>
   detect_delimiter sample = Inr delim \<Longrightarrow>
   convert_with_pandas w (argv ! 1) (argv ! 2) delim comment_char = (w1, Inl e) \<Longrightarrow>
   convert_fallback w1 (argv ! 1) (argv ! 2) delim comment_char = (w2, Inr u) \<Longrightarrow>
   main w argv = \<lparr>ending = Returned,
      stdout = preview_lines sample delim @ [PandasFailed e, Wrote (argv ! 2)],
      attempts = [StructuredAttempt, FallbackAttempt], final = w2\<rparr>"
  by (simp add: main_def preview_lines_def)

lemma main_both_fail:
  "\<not> length argv < 3 \<Longrightarrow> path_exists w (argv ! 1) \<Longrightarrow> read_preview w (argv ! 1) 20 = Inr sample \<Longrightarrow>
   detect_delimiter sample = Inr delim \<Longrightarrow>
   convert_with_pandas w (argv ! 1) (argv ! 2) delim comment_char = (w1, Inl e) \<Longrightarrow>
   convert_fallback w1 (argv ! 1) (argv ! 2) delim comment_char = (w2, Inl e2) \<Longrightarrow>
   main w argv = \<lparr>ending = SysExit 3,
      stdout = preview_lines sample delim @ [PandasFailed e, FallbackFailed e2],
      attempts = [StructuredAttempt, FallbackAttempt], final = w2\<rparr>"
  by (simp add: main_def preview_lines_def)

lemma open_maybe_gzip_exists: "open_maybe_gzip w path = Inr f \<Longrightarrow> path_exists w path"
  by (auto simp: open_maybe_gzip_def open_gzip_def open_plain_def path_exists_def
      split: if_splits option.splits node.splits)

lemma read_preview_of_text:
  "open_maybe_gzip w path = Inr f \<Longrightarrow> read_text w f = Inr text \<Longrightarrow>
   read_preview w path n = Inr (concat (take n (file_lines text)))"
  by (simp add: read_preview_def)

lemma pd_read_csv_of_text:
  "open_maybe_gzip w path = Inr f \<Longrightarrow> read_text w f = Inr text \<Longrightarrow>
   pd_read_csv w path sep comment =
     (case map (split_on sep)
             (filter (\<lambda>l. strip l \<noteq> [] \<and> \<not> startswith (lstrip l) comment)
                (map chomp (file_lines text))) of
        [] \<Rightarrow> Inl EmptyDataError
      | header # body \<Rightarrow>
          if list_all (\<lambda>row. length row = length header) body
          then Inr \<lparr>columns = header, rows = body\<rparr>
          else Inl ParserError)"
  by (simp add: pd_read_csv_def)

lemma table_preview: "concat (take 20 (file_lines table_text)) = table_text"
  by code_simp

lemma table_frame:
  "(case map (split_on TAB)
             (filter (\<lambda>l. strip l \<noteq> [] \<and> \<not> startswith (lstrip l) comment_char)
                (map chomp (file_lines table_text))) of
        [] \<Rightarrow> Inl EmptyDataError
      | header # body \<Rightarrow>
          if list_all (\<lambda>row. length row = length header) body
          then Inr \<lparr>columns = header, rows = body\<rparr>
          else Inl ParserError)
   = Inr \<lparr>columns = [''a'', ''b'', ''c''], rows = [[''1'', ''2'', ''3''], [''4'', ''5'', ''6'']]\<rparr>"
  by (simp add: table_text_def TAB_def LF_def CR_def
     chomp_def strip_def lstrip_def rstrip_def is_space_def startswith_def comment_char_def)

lemma table_rendered:
  "concat (map (writerow [LF]) [map strip [''a'', ''b'', ''c''], [''1'', ''2'', ''3''], [''4'', ''5'', ''6'']]) = table_csv"
  by (simp add: writerow_def join_append_def quotechar_def table_csv_def LF_def strip_def lstrip_def rstrip_def is_space_def)

lemma convert_with_pandas_table:
  assumes "open_maybe_gzip w inpath = Inr f" and "read_text w f = Inr table_text"
    and "has_pandas w" and "writable w outpath"
  shows "convert_with_pandas w inpath outpath TAB comment_char =
      (write_file w outpath table_csv,
       Inr \<lparr>columns = map strip [''a'', ''b'', ''c''],
            rows = [[''1'', ''2'', ''3''], [''4'', ''5'', ''6'']]\<rparr>)"
  using assms(3,4) table_rendered
  by (simp add: convert_with_pandas_def pd_read_csv_of_text [OF assms(1,2)] table_frame
      to_csv_def)

lemma detect_delimiter_table: "detect_delimiter table_text = Inr TAB"
  by code_simp

lemma main_on_table:
  assumes "\<not> length argv < 3"
    and "open_maybe_gzip w (argv ! 1) = Inr f" and "read_text w f = Inr table_text"
    and "has_pandas w" and "writable w (argv ! 2)"
  shows "main w argv =
         \<lparr>ending = Returned,
          stdout = preview_lines table_text TAB @ [WroteTable (argv ! 2) 2 3],
          attempts = [StructuredAttempt],
          final = write_file w (argv ! 2) table_csv\<rparr>"
proof -
  have p: "read_preview w (argv ! 1) 20 = Inr table_text"
    using read_preview_of_text [OF assms(2,3), of 20] by (simp only: table_preview)
  from main_structured [OF assms(1) open_maybe_gzip_exists [OF assms(2)] p
      detect_delimiter_table convert_with_pandas_table [OF assms(2-5)]]
  show ?thesis by simp
qed

lemma demo_open_table:
  "open_maybe_gzip demo_world ''in.rtab'' = Inr (PlainStream ''in.rtab'')"
  "read_text demo_world (PlainStream ''in.rtab'') = Inr table_text"
  by (simp_all add: open_maybe_gzip_def endswith_def open_plain_def demo_world_def
      read_text_def table_text_def TAB_def LF_def CR_def)

lemma demo_open_table_gz:
  "open_maybe_gzip demo_world ''in.rtab.gz'' = Inr (GzipStream ''in.rtab.gz'')"
  "read_text demo_world (GzipStream ''in.rtab.gz'') = Inr table_text"
  by (simp_all add: open_maybe_gzip_def endswith_def open_gzip_def demo_world_def
      read_text_def table_text_def TAB_def LF_def CR_def)

lemma demo_flags:
  "has_pandas demo_world" "writable demo_world ''out.csv''" "\<not> writable demo_world ''locked.csv''"
  by (simp_all add: demo_world_def)

text \<open>
  C6. When the input stream delivers the table of the scenario, the detector returns
  the tab, and the run converts by the structured path, writes exactly
  \<open>table_csv\<close> to the output file and reports 2 rows and 3 columns.
\<close>

theorem table_scenario:
  assumes "open_maybe_gzip w inpath = Inr f" and "read_text w f = Inr table_text"
    and "has_pandas w" and "writable w outpath"
  shows "detect_delimiter table_text = Inr TAB
     \<and> main w [prog, inpath, outpath] =
         \<lparr>ending = Returned,
          stdout = preview_lines table_text TAB @ [WroteTable outpath 2 3],
          attempts = [StructuredAttempt],
          final = write_file w outpath table_csv\<rparr>
     \<and> nodes (final (main w [prog, inpath, outpath])) outpath = Some (Regular table_csv None)"
proof -
  note d = detect_delimiter_table
  have m: "main w [prog, inpath, outpath] =
         \<lparr>ending = Returned,
          stdout = preview_lines table_text TAB @ [WroteTable outpath 2 3],
          attempts = [StructuredAttempt],
          final = write_file w outpath table_csv\<rparr>"
    using main_on_table [of "[prog, inpath, outpath]" w f] assms by simp
  have "nodes (write_file w outpath table_csv) outpath = Some (Regular table_csv None)"
    by (simp add: write_file_def table_csv_def)
  with d m show ?thesis by simp
qed

theorem table_scenario_witness:
  "open_maybe_gzip demo_world ''in.rtab'' = Inr (PlainStream ''in.rtab'')
   \<and> read_text demo_world (PlainStream ''in.rtab'') = Inr table_text
   \<and> has_pandas demo_world \<and> writable demo_world ''out.csv''
   \<and> detect_delimiter table_text = Inr TAB
   \<and> stdout (main demo_world [''rtab_to_csv.py'', ''in.rtab'', ''out.csv''])
       = preview_lines table_text TAB @ [WroteTable ''out.csv'' 2 3]
   \<and> nodes (final (main demo_world [''rtab_to_csv.py'', ''in.rtab'', ''out.csv''])) ''out.csv''
       = Some (Regular table_csv None)"
proof -
  note t = table_scenario [OF demo_open_table demo_flags(1,2), of "''rtab_to_csv.py''"]
  from t have "stdout (main demo_world [''rtab_to_csv.py'', ''in.rtab'', ''out.csv''])
       = preview_lines table_text TAB @ [WroteTable ''out.csv'' 2 3]" by simp
  with t demo_open_table demo_flags(1,2) show ?thesis by blast
qed

text \<open>
  C9, as stated, fails: with three positional arguments the argument count is
  wrong, and the run converts and ends with status 0, not 1.
\<close>

theorem extra_argument_counterexample:
  "length [''rtab_to_csv.py'', ''in.rtab'', ''out.csv'', ''extra''] - 1 = (3::nat)
   \<and> exit_status (main demo_world [''rtab_to_csv.py'', ''in.rtab'', ''out.csv'', ''extra'']) = 0"
proof -
  have "main demo_world [''rtab_to_csv.py'', ''in.rtab'', ''out.csv'', ''extra''] =
         \<lparr>ending = Returned,
          stdout = preview_lines table_text TAB @ [WroteTable ''out.csv'' 2 3],
          attempts = [StructuredAttempt],
          final = write_file demo_world ''out.csv'' table_csv\<rparr>"
    using main_on_table [of "[''rtab_to_csv.py'', ''in.rtab'', ''out.csv'', ''extra'']"
        demo_world "PlainStream ''in.rtab''"] demo_open_table demo_flags
    by simp
  then show ?thesis by (simp add: exit_status_def)
qed

text \<open>
  C9 (amended). The exit status is 1 whenever fewer than two positional arguments
  are given; with at least two (further ones are ignored) it is 2 whenever the
  input path does not exist, and 0 whenever the structured path or, after it
  failed, the fallback path wrote the output.
\<close>

theorem exit_statuses:
  "(length argv < 3 \<longrightarrow> exit_status (main w argv) = 1)
   \<and> (\<not> length argv < 3 \<and> \<not> path_exists w (argv ! 1) \<longrightarrow> exit_status (main w argv) = 2)
   \<and> (\<forall>sample delim w1 df.
         \<not> length argv < 3 \<and> path_exists w (argv ! 1)
         \<and> read_preview w (argv ! 1) 20 = Inr sample
         \<and> detect_delimiter sample = Inr delim
         \<and> convert_with_pandas w (argv ! 1) (argv ! 2) delim comment_char = (w1, Inr df)
         \<longrightarrow> exit_status (main w argv) = 0)
   \<and> (\<forall>sample delim w1 e w2.
         \<not> length argv < 3 \<and> path_exists w (argv ! 1)
         \<and> read_preview w (argv ! 1) 20 = Inr sample
         \<and> detect_delimiter sample = Inr delim
         \<and> convert_with_pandas w (argv ! 1) (argv ! 2) delim comment_char = (w1, Inl e)
         \<and> convert_fallback w1 (argv ! 1) (argv ! 2) delim comment_char = (w2, Inr ())
         \<longrightarrow> exit_status (main w argv) = 0)"
proof -
  have a: "exit_status (main w argv) = 1" if "length argv < 3"
    using that by (simp add: main_usage exit_status_def)
  have b: "exit_status (main w argv) = 2" if "\<not> length argv < 3" "\<not> path_exists w (argv ! 1)"
    using that by (simp add: main_not_found exit_status_def)
  have c: "exit_status (main w argv) = 0"
    if "\<not> length argv < 3" "path_exists w (argv ! 1)"
      "read_preview w (argv ! 1) 20 = Inr sample" "detect_delimiter sample = Inr delim"
      "convert_with_pandas w (argv ! 1) (argv ! 2) delim comment_char = (w1, Inr df)"
    for sample delim w1 df
    using main_structured [OF that] by (simp add: exit_status_def)
  have d: "exit_status (main w argv) = 0"
    if "\<not> length argv < 3" "path_exists w (argv ! 1)"
      "read_preview w (argv ! 1) 20 = Inr sample" "detect_delimiter sample = Inr delim"
      "convert_with_pandas w (argv ! 1) (argv ! 2) delim comment_char = (w1, Inl e)"
      "convert_fallback w1 (argv ! 1) (argv ! 2) delim comment_char = (w2, Inr ())"
    for sample delim w1 e w2
    using main_fallback [OF that] by (simp add: exit_status_def)
  from a b c d show ?thesis by blast
qed

lemma demo_exists:
  "path_exists demo_world ''in.rtab''" "\<not> path_exists demo_world ''missing.rtab''"
  "path_exists demo_world ''empty.rtab''"
  by (simp_all add: path_exists_def demo_world_def)

theorem exit_statuses_witness:
  "exit_status (main demo_world [''rtab_to_csv.py'']) = 1
   \<and> exit_status (main demo_world [''rtab_to_csv.py'', ''missing.rtab'', ''out.csv'']) = 2
   \<and> exit_status (main demo_world [''rtab_to_csv.py'', ''in.rtab'', ''out.csv'']) = 0"
proof -
  have one: "exit_status (main demo_world [''rtab_to_csv.py'']) = 1"
    using exit_statuses [of "[''rtab_to_csv.py'']" demo_world] by simp
  have two: "exit_status (main demo_world [''rtab_to_csv.py'', ''missing.rtab'', ''out.csv'']) = 2"
    using exit_statuses [of "[''rtab_to_csv.py'', ''missing.rtab'', ''out.csv'']" demo_world]
      demo_exists(2) by simp
  have p: "read_preview demo_world ''in.rtab'' 20 = Inr table_text"
    using read_preview_of_text [OF demo_open_table, of 20] by (simp only: table_preview)
  note c = convert_with_pandas_table [OF demo_open_table demo_flags(1,2)]
  note e = exit_statuses [of "[''rtab_to_csv.py'', ''in.rtab'', ''out.csv'']" demo_world,
      THEN conjunct2, THEN conjunct2, THEN conjunct1, rule_format,
      of table_text TAB "write_file demo_world ''out.csv'' table_csv"
        "\<lparr>columns = map strip [''a'', ''b'', ''c''],
            rows = [[''1'', ''2'', ''3''], [''4'', ''5'', ''6'']]\<rparr>"]
  have zero: "exit_status (main demo_world [''rtab_to_csv.py'', ''in.rtab'', ''out.csv'']) = 0"
    by (rule e) (simp add: demo_exists p detect_delimiter_table c)
  from one two zero show ?thesis by simp
qed

lemma convert_with_pandas_locked:
  "convert_with_pandas demo_world ''in.rtab'' ''locked.csv'' TAB comment_char
     = (demo_world, Inl PermissionError)"
  using demo_flags(1,3)
  by (simp add: convert_with_pandas_def pd_read_csv_of_text [OF demo_open_table] table_frame
      to_csv_def)

lemma convert_fallback_locked:
  "convert_fallback demo_world ''in.rtab'' ''locked.csv'' TAB comment_char
     = (demo_world, Inl PermissionError)"
  using demo_flags(3) by (simp add: convert_fallback_def demo_open_table)

text \<open>
  C4. For every invocation the status is 3 exactly when the run reached the
  conversion and both the structured and the fallback path failed; and whenever the
  structured path fails, its error is caught and reported, the fallback is attempted
  exactly once after it, and the run ends by returning or with status 3.
\<close>

theorem exit_3_iff_both_fail:
  "(exit_status (main w argv) = 3 \<longleftrightarrow>
      (\<not> length argv < 3 \<and> path_exists w (argv ! 1)
       \<and> (\<exists>sample delim w1 e w2 e2.
             read_preview w (argv ! 1) 20 = Inr sample
             \<and> detect_delimiter sample = Inr delim
             \<and> convert_with_pandas w (argv ! 1) (argv ! 2) delim comment_char = (w1, Inl e)
             \<and> convert_fallback w1 (argv ! 1) (argv ! 2) delim comment_char = (w2, Inl e2))))
   \<and> (\<forall>sample delim w1 e.
         \<not> length argv < 3 \<and> path_exists w (argv ! 1)
         \<and> read_preview w (argv ! 1) 20 = Inr sample
         \<and> detect_delimiter sample = Inr delim
         \<and> convert_with_pandas w (argv ! 1) (argv ! 2) delim comment_char = (w1, Inl e)
         \<longrightarrow> attempts (main w argv) = [StructuredAttempt, FallbackAttempt]
             \<and> PandasFailed e \<in> set (stdout (main w argv))
             \<and> (ending (main w argv) = Returned \<or> ending (main w argv) = SysExit 3))"
proof -
  have both: "exit_status (main w argv) = 3 \<longleftrightarrow>
      (\<not> length argv < 3 \<and> path_exists w (argv ! 1)
       \<and> (\<exists>sample delim w1 e w2 e2.
             read_preview w (argv ! 1) 20 = Inr sample
             \<and> detect_delimiter sample = Inr delim
             \<and> convert_with_pandas w (argv ! 1) (argv ! 2) delim comment_char = (w1, Inl e)
             \<and> convert_fallback w1 (argv ! 1) (argv ! 2) delim comment_char = (w2, Inl e2)))"
  proof (rule iffI)
    assume "exit_status (main w argv) = 3"
    then show "\<not> length argv < 3 \<and> path_exists w (argv ! 1)
         \<and> (\<exists>sample delim w1 e w2 e2.
               read_preview w (argv ! 1) 20 = Inr sample
               \<and> detect_delimiter sample = Inr delim
               \<and> convert_with_pandas w (argv ! 1) (argv ! 2) delim comment_char = (w1, Inl e)
               \<and> convert_fallback w1 (argv ! 1) (argv ! 2) delim comment_char = (w2, Inl e2))"
      by (auto simp: main_def exit_status_def Let_def
          split: if_splits sum.splits prod.splits)
  next
    assume "\<not> length argv < 3 \<and> path_exists w (argv ! 1)
         \<and> (\<exists>sample delim w1 e w2 e2.
               read_preview w (argv ! 1) 20 = Inr sample
               \<and> detect_delimiter sample = Inr delim
               \<and> convert_with_pandas w (argv ! 1) (argv ! 2) delim comment_char = (w1, Inl e)
               \<and> convert_fallback w1 (argv ! 1) (argv ! 2) delim comment_char = (w2, Inl e2))"
    then obtain sample delim w1 e w2 e2 where
      "\<not> length argv < 3" "path_exists w (argv ! 1)"
      "read_preview w (argv ! 1) 20 = Inr sample" "detect_delimiter sample = Inr delim"
      "convert_with_pandas w (argv ! 1) (argv ! 2) delim comment_char = (w1, Inl e)"
      "convert_fallback w1 (argv ! 1) (argv ! 2) delim comment_char = (w2, Inl e2)"
      by blast
    from main_both_fail [OF this] show "exit_status (main w argv) = 3"
      by (simp add: exit_status_def)
  qed
  have caught: "attempts (main w argv) = [StructuredAttempt, FallbackAttempt]
             \<and> PandasFailed e \<in> set (stdout (main w argv))
             \<and> (ending (main w argv) = Returned \<or> ending (main w argv) = SysExit 3)"
    if a: "\<not> length argv < 3 \<and> path_exists w (argv ! 1)
         \<and> read_preview w (argv ! 1) 20 = Inr sample
         \<and> detect_delimiter sample = Inr delim
         \<and> convert_with_pandas w (argv ! 1) (argv ! 2) delim comment_char = (w1, Inl e)"
    for sample delim w1 e
  proof -
    obtain w2 res where f: "convert_fallback w1 (argv ! 1) (argv ! 2) delim comment_char = (w2, res)"
      by (cases "convert_fallback w1 (argv ! 1) (argv ! 2) delim comment_char")
    show ?thesis
    proof (cases res)
      case (Inl e2)
      with a f main_both_fail [of argv w sample delim w1 e w2 e2] show ?thesis by simp
    next
      case (Inr u)
      with a f main_fallback [of argv w sample delim w1 e w2 u] show ?thesis by simp
    qed
  qed
  from both caught show ?thesis by blast
qed



theorem exit_3_iff_both_fail_witness:
  "exit_status (main demo_world [''rtab_to_csv.py'', ''in.rtab'', ''locked.csv'']) = 3
   \<and> attempts (main demo_world [''rtab_to_csv.py'', ''in.rtab'', ''locked.csv''])
       = [StructuredAttempt, FallbackAttempt]"
proof -
  note t = exit_3_iff_both_fail [of demo_world "[''rtab_to_csv.py'', ''in.rtab'', ''locked.csv'']"]
  have p: "read_preview demo_world ''in.rtab'' 20 = Inr table_text"
    using read_preview_of_text [OF demo_open_table, of 20] by (simp only: table_preview)
  have "\<exists>sample delim w1 e w2 e2.
          read_preview demo_world ''in.rtab'' 20 = Inr sample
          \<and> detect_delimiter sample = Inr delim
          \<and> convert_with_pandas demo_world ''in.rtab'' ''locked.csv'' delim comment_char = (w1, Inl e)
          \<and> convert_fallback w1 ''in.rtab'' ''locked.csv'' delim comment_char = (w2, Inl e2)"
    using p detect_delimiter_table convert_with_pandas_locked convert_fallback_locked by blast
  with t demo_exists(1)
  have three: "exit_status (main demo_world [''rtab_to_csv.py'', ''in.rtab'', ''locked.csv'']) = 3"
    by simp
  note c = t [THEN conjunct2, rule_format, of table_text TAB demo_world PermissionError]
  have "attempts (main demo_world [''rtab_to_csv.py'', ''in.rtab'', ''locked.csv''])
       = [StructuredAttempt, FallbackAttempt]"
    using c demo_exists(1) p detect_delimiter_table convert_with_pandas_locked by simp
  with three show ?thesis by simp
qed

lemma open_maybe_gzip_regular:
  "nodes w path = Some (Regular r g) \<Longrightarrow>
   open_maybe_gzip w path
     = Inr (if endswith path ''.gz'' then GzipStream path else PlainStream path)"
  by (simp add: open_maybe_gzip_def open_gzip_def open_plain_def)

lemma read_text_empty:
  "nodes w path = Some (Regular [] (Some [])) \<Longrightarrow>
   read_text w (if endswith path ''.gz'' then GzipStream path else PlainStream path) = Inr []"
  by (simp add: read_text_def)

lemma nodes_truncate_file:
  "nodes (truncate_file w out) path
     = (if path = out then Some (Regular [] (Some [])) else nodes w path)"
  by (simp add: truncate_file_def)

lemma writable_truncate_file: "writable (truncate_file w out) = writable w"
  by (simp add: truncate_file_def)

text \<open>
  C8. For an empty input file and an output path that can be written, the preview
  is empty and \<open>(file empty)\<close> is printed, the detector returns the tab, the
  structured attempt fails and is caught, the fallback leaves an output file with
  no record, and the status is 0.
\<close>

theorem empty_input:
  assumes "nodes w inpath = Some (Regular [] (Some []))" and "writable w outpath"
  shows "read_preview w inpath 20 = Inr []
     \<and> detect_delimiter [] = Inr TAB
     \<and> main w [prog, inpath, outpath] =
         \<lparr>ending = Returned,
          stdout = [Text ''=== file preview ==='', Text ''(file empty)'',
                    DetectedDelimiter TAB, Text ''Trying to convert with pandas...'',
                    PandasFailed (if has_pandas w then EmptyDataError else ImportError),
                    Wrote outpath],
          attempts = [StructuredAttempt, FallbackAttempt],
          final = write_file (truncate_file w outpath) outpath []\<rparr>
     \<and> exit_status (main w [prog, inpath, outpath]) = 0
     \<and> nodes (final (main w [prog, inpath, outpath])) outpath = Some (Regular [] (Some []))"
proof -
  define f where "f = (if endswith inpath ''.gz'' then GzipStream inpath else PlainStream inpath)"
  have op: "open_maybe_gzip w inpath = Inr f"
    using assms(1) by (simp add: open_maybe_gzip_regular f_def)
  have rd: "read_text w f = Inr []"
    using assms(1) unfolding f_def by (rule read_text_empty)
  have p: "read_preview w inpath 20 = Inr []"
    using read_preview_of_text [OF op rd, of 20] by simp
  have d: "detect_delimiter [] = Inr TAB" by code_simp
  have c: "convert_with_pandas w inpath outpath TAB comment_char
             = (w, Inl (if has_pandas w then EmptyDataError else ImportError))"
    by (simp add: convert_with_pandas_def pd_read_csv_of_text [OF op rd])
  have "nodes (truncate_file w outpath) inpath = Some (Regular [] (Some []))"
    using assms(1) by (simp add: nodes_truncate_file)
  then have rd1: "read_text (truncate_file w outpath) f = Inr []"
    unfolding f_def by (rule read_text_empty)
  have fb: "convert_fallback w inpath outpath TAB comment_char
             = (write_file (truncate_file w outpath) outpath [], Inr ())"
    using assms(2) by (simp add: convert_fallback_def op rd1 csv_reader_def parse_reset_def)
  have m: "main w [prog, inpath, outpath] =
         \<lparr>ending = Returned,
          stdout = preview_lines [] TAB
                   @ [PandasFailed (if has_pandas w then EmptyDataError else ImportError),
                      Wrote ([prog, inpath, outpath] ! 2)],
          attempts = [StructuredAttempt, FallbackAttempt],
          final = write_file (truncate_file w outpath) outpath []\<rparr>"
    by (rule main_fallback [where delim = TAB and ?w1.0 = w])
      (simp_all add: open_maybe_gzip_exists [OF op] p d c fb)
  have n: "nodes (write_file (truncate_file w outpath) outpath []) outpath
            = Some (Regular [] (Some []))"
    by (simp add: write_file_def)
  from p d m n show ?thesis by (simp add: preview_lines_def exit_status_def)
qed

lemma demo_empty: "nodes demo_world ''empty.rtab'' = Some (Regular [] (Some []))"
  by (simp add: demo_world_def)

theorem empty_input_witness:
  "nodes demo_world ''empty.rtab'' = Some (Regular [] (Some []))
   \<and> writable demo_world ''out.csv''
   \<and> exit_status (main demo_world [''rtab_to_csv.py'', ''empty.rtab'', ''out.csv'']) = 0
   \<and> nodes (final (main demo_world [''rtab_to_csv.py'', ''empty.rtab'', ''out.csv''])) ''out.csv''
       = Some (Regular [] (Some []))"
  using empty_input [OF demo_empty demo_flags(2), of "''rtab_to_csv.py''"] demo_empty demo_flags(2)
  by blast

section \<open>Properties of the reader and of the fallback conversion\<close>

lemma split_on_not_Nil: "split_on d xs \<noteq> []"
  by (induction xs) (auto split: list.splits)

lemma split_on_append_delim: "d \<notin> set f \<Longrightarrow> split_on d (f @ d # xs) = f # split_on d xs"
  by (induction f) (auto split: list.splits simp: split_on_not_Nil)

lemma split_on_no_delim: "d \<notin> set f \<Longrightarrow> split_on d f = [f]"
  by (induction f) auto

lemma step_plain_char:
  assumes "state r = START_FIELD \<or> state r = IN_FIELD"
    and "c \<noteq> LF" "c \<noteq> CR" "c \<noteq> quotechar" "c \<noteq> d"
    and "length (field r) < field_limit"
  shows "parse_process_char d r (Some c) = Inr (r\<lparr>state := IN_FIELD, field := field r @ [c]\<rparr>)"
  using assms
  by (auto simp: parse_process_char_def start_field_def is_eol_def parse_add_char_def)

lemma step_delim:
  assumes "state r = START_FIELD \<or> state r = IN_FIELD"
    and "d \<noteq> LF" "d \<noteq> CR" "d \<noteq> quotechar"
  shows "parse_process_char d r (Some d)
           = Inr (r\<lparr>state := START_FIELD, fieldlist := fieldlist r @ [field r], field := []\<rparr>)"
  using assms
  by (auto simp: parse_process_char_def start_field_def is_eol_def parse_save_field_def)

lemma parse_chars_plain:
  assumes "\<forall>c \<in> set body. c \<noteq> LF \<and> c \<noteq> CR \<and> c \<noteq> quotechar"
    and "state r = START_FIELD \<or> state r = IN_FIELD"
    and "length (field r) + length body \<le> field_limit"
    and "d \<notin> set (field r)"
  shows "\<exists>r'. parse_chars d r (map Some body @ rest) = parse_chars d r' rest
           \<and> (state r' = START_FIELD \<or> state r' = IN_FIELD)
           \<and> fieldlist r' @ [field r'] = fieldlist r @ split_on d (field r @ body)"
  using assms
proof (induction body arbitrary: r)
  case Nil
  have "split_on d (field r) = [field r]"
    using Nil.prems(4) by (rule split_on_no_delim)
  then show ?case using Nil.prems(2) by (auto intro!: exI [of _ r])
next
  case (Cons c cs)
  have plain: "c \<noteq> LF" "c \<noteq> CR" "c \<noteq> quotechar" using Cons.prems(1) by simp_all
  show ?case
  proof (cases "c = d")
    case True
    define r1 where "r1 = r\<lparr>state := START_FIELD, fieldlist := fieldlist r @ [field r], field := []\<rparr>"
    have s: "parse_process_char d r (Some c) = Inr r1"
      using step_delim [OF Cons.prems(2)] plain True by (simp add: r1_def)
    have "\<exists>r'. parse_chars d r1 (map Some cs @ rest) = parse_chars d r' rest
           \<and> (state r' = START_FIELD \<or> state r' = IN_FIELD)
           \<and> fieldlist r' @ [field r'] = fieldlist r1 @ split_on d (field r1 @ cs)"
      using Cons.prems by (intro Cons.IH) (simp_all add: r1_def)
    then obtain r' where r': "parse_chars d r1 (map Some cs @ rest) = parse_chars d r' rest"
      "state r' = START_FIELD \<or> state r' = IN_FIELD"
      "fieldlist r' @ [field r'] = fieldlist r1 @ split_on d (field r1 @ cs)" by blast
    have "fieldlist r1 @ split_on d (field r1 @ cs) = fieldlist r @ split_on d (field r @ c # cs)"
      using split_on_append_delim [OF Cons.prems(4), of cs] True by (simp add: r1_def)
    with r' s show ?thesis by (auto intro!: exI [of _ r'])
  next
    case False
    define r1 where "r1 = r\<lparr>state := IN_FIELD, field := field r @ [c]\<rparr>"
    have s: "parse_process_char d r (Some c) = Inr r1"
      using step_plain_char [OF Cons.prems(2) plain False] Cons.prems(3) by (simp add: r1_def)
    have "\<exists>r'. parse_chars d r1 (map Some cs @ rest) = parse_chars d r' rest
           \<and> (state r' = START_FIELD \<or> state r' = IN_FIELD)
           \<and> fieldlist r' @ [field r'] = fieldlist r1 @ split_on d (field r1 @ cs)"
      using Cons.prems False by (intro Cons.IH) (simp_all add: r1_def)
    then obtain r' where r': "parse_chars d r1 (map Some cs @ rest) = parse_chars d r' rest"
      "state r' = START_FIELD \<or> state r' = IN_FIELD"
      "fieldlist r' @ [field r'] = fieldlist r1 @ split_on d (field r1 @ cs)" by blast
    have "fieldlist r1 @ split_on d (field r1 @ cs) = fieldlist r @ split_on d (field r @ c # cs)"
      by (simp add: r1_def)
    with r' s show ?thesis by (auto intro!: exI [of _ r'])
  qed
qed

lemma parse_chars_end:
  assumes "state r = START_FIELD \<or> state r = IN_FIELD"
  shows "parse_chars d r [None]
           = Inr \<lparr>state = START_RECORD, fieldlist = fieldlist r @ [field r], field = []\<rparr>"
    and "parse_chars d r [Some LF, None]
           = Inr \<lparr>state = START_RECORD, fieldlist = fieldlist r @ [field r], field = []\<rparr>"
  using assms
  by (auto simp: parse_process_char_def start_field_def is_eol_def parse_save_field_def
      after_eol_def)


lemma start_record_plain_char:
  assumes "c \<noteq> LF" "c \<noteq> CR"
  shows "parse_process_char d parse_reset (Some c)
           = parse_process_char d (parse_reset\<lparr>state := START_FIELD\<rparr>) (Some c)"
  using assms by (simp add: parse_process_char_def parse_reset_def is_eol_def)

lemma parse_line_blank:
  "parse_line d parse_reset [LF] = Inr \<lparr>state = START_RECORD, fieldlist = [], field = []\<rparr>"
  by (simp add: parse_line_def parse_process_char_def parse_reset_def is_eol_def)

lemma parse_line_plain:
  assumes "plain_line l"
  shows "parse_line d parse_reset l
           = Inr \<lparr>state = START_RECORD, fieldlist = row_of_line d l, field = []\<rparr>"
proof -
  define body where "body = chomp l"
  define tail where "tail = (if last l = LF then [Some LF, None] else [None])"
  from assms have ne: "l \<noteq> []" and nolf: "LF \<notin> set (butlast l)" and nocr: "CR \<notin> set l"
    and noq: "quotechar \<notin> set l" and len: "length l \<le> field_limit"
    by (simp_all add: plain_line_def)
  have l_eq: "l = body @ (if last l = LF then [LF] else [])"
  proof (cases "last l = LF")
    case True
    with ne have "butlast l @ [LF] = l" by (metis append_butlast_last_id)
    with True ne show ?thesis by (simp add: body_def chomp_def)
  next
    case False
    then show ?thesis by (simp add: body_def chomp_def)
  qed
  have chars: "map Some l @ [None] = map Some body @ tail"
    by (subst l_eq) (simp add: tail_def)
  have body_sub: "set body \<subseteq> set l"
    by (cases "last l = LF") (simp_all add: body_def chomp_def in_set_butlastD subsetI)
  have body_nolf: "LF \<notin> set body"
  proof (cases "last l = LF")
    case True
    then show ?thesis using nolf ne by (simp add: body_def chomp_def)
  next
    case False
    have "set l = set (butlast l) \<union> {last l}"
      using ne by (metis append_butlast_last_id set_append list.set(1,2) Un_insert_right sup_bot.right_neutral)
    with False nolf show ?thesis using ne by (auto simp: body_def chomp_def)
  qed
  have plain: "\<forall>c \<in> set body. c \<noteq> LF \<and> c \<noteq> CR \<and> c \<noteq> quotechar"
    using body_sub body_nolf nocr noq by auto
  have blen: "length body \<le> field_limit"
    using len by (cases "last l = LF") (auto simp: body_def chomp_def)
  show ?thesis
  proof (cases body)
    case Nil
    with l_eq ne have "l = [LF]" by (auto split: if_splits)
    then show ?thesis by (simp add: parse_line_blank row_of_line_def chomp_def)
  next
    case (Cons c cs)
    define r0 where "r0 = parse_reset\<lparr>state := START_FIELD\<rparr>"
    have c: "c \<noteq> LF" "c \<noteq> CR" using plain Cons by simp_all
    have "parse_chars d parse_reset (map Some body @ tail) = parse_chars d r0 (map Some body @ tail)"
      using start_record_plain_char [OF c, of d] by (simp add: Cons r0_def)
    moreover have "\<exists>r'. parse_chars d r0 (map Some body @ tail) = parse_chars d r' tail
           \<and> (state r' = START_FIELD \<or> state r' = IN_FIELD)
           \<and> fieldlist r' @ [field r'] = fieldlist r0 @ split_on d (field r0 @ body)"
      using plain blen by (intro parse_chars_plain) (simp_all add: r0_def parse_reset_def)
    then obtain r' where r': "parse_chars d r0 (map Some body @ tail) = parse_chars d r' tail"
      "state r' = START_FIELD \<or> state r' = IN_FIELD"
      "fieldlist r' @ [field r'] = split_on d body"
      by (auto simp: r0_def parse_reset_def)
    moreover have "parse_chars d r' tail
        = Inr \<lparr>state = START_RECORD, fieldlist = fieldlist r' @ [field r'], field = []\<rparr>"
      using parse_chars_end [OF r'(2), of d] by (simp add: tail_def)
    ultimately have "parse_line d parse_reset l
        = Inr \<lparr>state = START_RECORD, fieldlist = split_on d body, field = []\<rparr>"
      by (simp add: parse_line_def chars)
    then show ?thesis using Cons by (simp add: row_of_line_def body_def)
  qed
qed

lemma csv_reader_plain:
  assumes "\<forall>l \<in> set lines. plain_line l"
  shows "csv_reader lines d = (map (row_of_line d) lines, None)"
  unfolding csv_reader_def using assms
proof (induction lines)
  case Nil
  show ?case by (simp add: parse_reset_def)
next
  case (Cons l ls)
  then have "plain_line l" by simp
  from parse_line_plain [OF this, of d] Cons show ?case by simp
qed

lemma file_lines_wf:
  "l \<in> set (file_lines t) \<Longrightarrow> l \<noteq> [] \<and> LF \<notin> set (butlast l) \<and> set l \<subseteq> set t"
proof (induction t arbitrary: l)
  case Nil
  then show ?case by simp
next
  case (Cons c cs)
  show ?case
  proof (cases "c = LF")
    case True
    with Cons show ?thesis by auto
  next
    case False
    show ?thesis
    proof (cases "file_lines cs")
      case Nil
      with False Cons.prems show ?thesis by simp
    next
      case (Cons m ms)
      then have m: "m \<noteq> [] \<and> LF \<notin> set (butlast m) \<and> set m \<subseteq> set cs"
        using Cons.IH [of m] by simp
      from Cons False Cons.prems have "l = c # m \<or> l \<in> set ms" by simp
      then show ?thesis
      proof
        assume "l = c # m"
        with m False show ?thesis by auto
      next
        assume "l \<in> set ms"
        with Cons Cons.IH [of l] show ?thesis by auto
      qed
    qed
  qed
qed

lemma universal_newlines_no_CR: "CR \<notin> set (universal_newlines r)"
  by (induction r rule: universal_newlines.induct) (auto simp: LF_def CR_def)

lemma convert_fallback_of_text:
  assumes "open_maybe_gzip w inpath = Inr f" and "writable w outpath"
    and "read_text (truncate_file w outpath) f = Inr text"
    and "csv_reader (file_lines text) d = (recs, err)"
  shows "convert_fallback w inpath outpath d c =
     (write_file (truncate_file w outpath) outpath
        (concat (map (writerow [CR, LF]) (filter (\<lambda>row. \<not> is_comment_row c row) recs))),
      case err of None \<Rightarrow> Inr () | Some e \<Rightarrow> Inl e)"
  using assms by (simp add: convert_fallback_def)

lemma open_maybe_gzip_stream:
  "open_maybe_gzip w path = Inr f \<Longrightarrow> f = PlainStream path \<or> f = GzipStream path"
  by (auto simp: open_maybe_gzip_def open_gzip_def open_plain_def
      split: if_splits option.splits node.splits)

lemma read_text_truncate_other:
  assumes "open_maybe_gzip w inpath = Inr f" and "inpath \<noteq> outpath"
  shows "read_text (truncate_file w outpath) f = read_text w f"
  using open_maybe_gzip_stream [OF assms(1)] assms(2)
  by (auto simp: read_text_def nodes_truncate_file)

lemma read_text_no_CR: "read_text w f = Inr text \<Longrightarrow> CR \<notin> set text"
  using universal_newlines_no_CR
  by (auto simp: read_text_def split: stream.splits option.splits node.splits)

lemma split_on_first: "\<exists>rest. split_on d xs = takeWhile (\<lambda>x. x \<noteq> d) xs # rest"
  by (induction xs) (auto split: list.splits)

lemma startswith_lstrip_append:
  assumes "startswith (lstrip f) c"
  shows "startswith (lstrip (f @ x)) c"
proof -
  from assms obtain r where r: "dropWhile is_space f = c # r"
    by (auto simp: startswith_def lstrip_def split: list.splits)
  then have "\<not> is_space c" using hd_dropWhile [of is_space f] by auto
  moreover have "f = takeWhile is_space f @ c # r"
    using r takeWhile_dropWhile_id [of is_space f] by simp
  then have "f @ x = takeWhile is_space f @ c # (r @ x)" by simp
  then have "dropWhile is_space (f @ x) = dropWhile is_space (c # (r @ x))"
    by (metis dropWhile_append2 set_takeWhileD)
  ultimately show ?thesis by (simp add: startswith_def lstrip_def)
qed

lemma chomp_prefix: "chomp l @ (if l \<noteq> [] \<and> last l = LF then [LF] else []) = l"
  by (simp add: chomp_def) (metis append_butlast_last_id)

lemma chomp_keeps_marker:
  assumes "c \<noteq> LF"
  shows "\<exists>r'. chomp (ws @ c # r) = ws @ c # r'"
proof (cases "r = []")
  case True
  with assms show ?thesis by (simp add: chomp_def)
next
  case False
  then have "butlast (ws @ c # r) = ws @ c # butlast r" by (simp add: butlast_append)
  then show ?thesis by (simp add: chomp_def)
qed

lemma comment_row_line:
  "is_comment_row c (row_of_line d l) \<Longrightarrow> is_comment_line c l"
proof -
  assume a: "is_comment_row c (row_of_line d l)"
  then have ne: "chomp l \<noteq> []" by (auto simp: row_of_line_def is_comment_row_def)
  obtain rest where sp: "split_on d (chomp l) = takeWhile (\<lambda>x. x \<noteq> d) (chomp l) # rest"
    using split_on_first by blast
  with a ne have f: "startswith (lstrip (takeWhile (\<lambda>x. x \<noteq> d) (chomp l))) c"
    by (simp add: row_of_line_def is_comment_row_def)
  define t where "t = (if l \<noteq> [] \<and> last l = LF then [LF] else [])"
  have "l = chomp l @ t" using chomp_prefix [of l] by (simp add: t_def)
  moreover have "chomp l = takeWhile (\<lambda>x. x \<noteq> d) (chomp l) @ dropWhile (\<lambda>x. x \<noteq> d) (chomp l)"
    by simp
  ultimately have "l = takeWhile (\<lambda>x. x \<noteq> d) (chomp l)
                         @ (dropWhile (\<lambda>x. x \<noteq> d) (chomp l) @ t)"
    by (metis append_assoc)
  with startswith_lstrip_append [OF f] show ?thesis
    unfolding is_comment_line_def by metis
qed

lemma comment_line_row:
  assumes "is_comment_line comment_char l" and "d \<notin> set (takeWhile is_space l)"
    and "d \<noteq> comment_char"
  shows "is_comment_row comment_char (row_of_line d l)"
proof -
  define ws where "ws = takeWhile is_space l"
  from assms(1) obtain r where r: "dropWhile is_space l = comment_char # r"
    by (auto simp: is_comment_line_def startswith_def lstrip_def split: list.splits)
  then have l: "l = ws @ comment_char # r"
    using takeWhile_dropWhile_id [of is_space l] by (simp add: ws_def)
  have nolf: "comment_char \<noteq> LF" by (simp add: comment_char_def LF_def)
  have nosp: "\<not> is_space comment_char" by (simp add: comment_char_def is_space_def)
  have wsp: "\<forall>x \<in> set ws. is_space x" by (auto simp: ws_def dest: set_takeWhileD)
  have wsd: "\<forall>x \<in> set ws. x \<noteq> d" using assms(2) by (auto simp: ws_def)
  from chomp_keeps_marker [OF nolf, of ws r] l obtain r' where
    ch: "chomp l = ws @ comment_char # r'" by auto
  obtain rest where sp: "split_on d (chomp l) = takeWhile (\<lambda>x. x \<noteq> d) (chomp l) # rest"
    using split_on_first by blast
  have "takeWhile (\<lambda>x. x \<noteq> d) (chomp l) = ws @ comment_char # takeWhile (\<lambda>x. x \<noteq> d) r'"
    using wsd assms(3) by (simp add: ch)
  moreover have "dropWhile is_space (ws @ comment_char # takeWhile (\<lambda>x. x \<noteq> d) r')
                  = comment_char # takeWhile (\<lambda>x. x \<noteq> d) r'"
    using wsp nosp by simp
  ultimately show ?thesis
    using sp ch by (simp add: row_of_line_def is_comment_row_def startswith_def lstrip_def)
qed

lemma blank_not_comment_line: "strip l = [] \<Longrightarrow> \<not> is_comment_line c l"
proof -
  assume "strip l = []"
  then have "\<forall>x \<in> set (lstrip l). is_space x"
    by (simp add: strip_def rstrip_def)
  moreover have "lstrip l \<noteq> [] \<Longrightarrow> \<not> is_space (hd (lstrip l))"
    unfolding lstrip_def by (rule hd_dropWhile)
  ultimately have "lstrip l = []" by (cases "lstrip l") auto
  then show ?thesis by (simp add: is_comment_line_def startswith_def)
qed

text \<open>
  C10 (amended). In the fallback path a blank input line is not skipped: an empty
  line is emitted as an empty record, a bare CR LF, and a line of whitespace only
  is emitted as a record as well. For every input without a double-quote character
  and without a line longer than the field limit, every candidate delimiter, and
  an output path that can be written and is not the input, the fallback succeeds
  and writes one record per input line whose first non-whitespace character is not
  the comment marker, provided no comment line has the delimiter among the
  whitespace before its marker; what is written for such a comment line is not
  part of this statement. The structured path drops blank lines: its frame has one
  record per line that is neither blank nor a comment.
\<close>

theorem fallback_record_per_line:
  assumes "open_maybe_gzip w inpath = Inr f" and "read_text w f = Inr text"
    and "inpath \<noteq> outpath" and "writable w outpath"
    and "quotechar \<notin> set text" and "\<forall>l \<in> set (file_lines text). length l \<le> field_limit"
    and "d \<in> set delims"
    and "\<forall>l \<in> set (file_lines text).
           is_comment_line comment_char l \<longrightarrow> d \<notin> set (takeWhile is_space l)"
  shows "convert_fallback w inpath outpath d comment_char =
           (write_file (truncate_file w outpath) outpath
              (concat (map (\<lambda>l. writerow [CR, LF] (row_of_line d l))
                 (filter (\<lambda>l. \<not> is_comment_line comment_char l) (file_lines text)))),
            Inr ())
     \<and> (\<forall>l. strip l = [] \<longrightarrow> \<not> is_comment_line comment_char l)
     \<and> writerow [CR, LF] (row_of_line d [LF]) = [CR, LF]
     \<and> (\<forall>df. pd_read_csv w inpath d comment_char = Inr df \<longrightarrow>
           length (columns df # rows df)
             = length (filter (\<lambda>l. strip l \<noteq> [] \<and> \<not> is_comment_line comment_char l)
                         (map chomp (file_lines text))))"
proof -
  have nocr: "CR \<notin> set text" using assms(2) by (rule read_text_no_CR)
  have "plain_line l" if "l \<in> set (file_lines text)" for l
    using file_lines_wf [OF that] that nocr assms(5,6) by (auto simp: plain_line_def)
  then have rd: "csv_reader (file_lines text) d = (map (row_of_line d) (file_lines text), None)"
    by (intro csv_reader_plain) simp
  have rt: "read_text (truncate_file w outpath) f = Inr text"
    using read_text_truncate_other [OF assms(1,3)] assms(2) by simp
  have dc: "d \<noteq> comment_char" using assms(7) by (auto simp: delims_def comment_char_def TAB_def)
  have same: "is_comment_row comment_char (row_of_line d l) \<longleftrightarrow> is_comment_line comment_char l"
    if "l \<in> set (file_lines text)" for l
    using that assms(8) comment_row_line [of comment_char d l] comment_line_row [of l d] dc
    by blast
  have kept: "filter (\<lambda>row. \<not> is_comment_row comment_char row) (map (row_of_line d) (file_lines text))
                = map (row_of_line d)
                    (filter (\<lambda>l. \<not> is_comment_line comment_char l) (file_lines text))"
    using same by (simp add: filter_map comp_def cong: filter_cong)
  have conv: "convert_fallback w inpath outpath d comment_char =
           (write_file (truncate_file w outpath) outpath
              (concat (map (\<lambda>l. writerow [CR, LF] (row_of_line d l))
                 (filter (\<lambda>l. \<not> is_comment_line comment_char l) (file_lines text)))),
            Inr ())"
    using convert_fallback_of_text [OF assms(1,4) rt rd, of comment_char]
    by (simp add: kept comp_def)
  have blank: "\<forall>l. strip l = [] \<longrightarrow> \<not> is_comment_line comment_char l"
    using blank_not_comment_line by blast
  have empty: "writerow [CR, LF] (row_of_line d [LF]) = [CR, LF]"
    by (simp add: row_of_line_def chomp_def writerow_def)
  have frame: "length (columns df # rows df)
             = length (filter (\<lambda>l. strip l \<noteq> [] \<and> \<not> is_comment_line comment_char l)
                         (map chomp (file_lines text)))"
    if "pd_read_csv w inpath d comment_char = Inr df" for df
  proof -
    define content where
      "content = filter (\<lambda>l. strip l \<noteq> [] \<and> \<not> startswith (lstrip l) comment_char)
                         (map chomp (file_lines text))"
    from that have "(case map (split_on d) content of
        [] \<Rightarrow> Inl EmptyDataError
      | header # body \<Rightarrow>
          if list_all (\<lambda>row. length row = length header) body
          then Inr \<lparr>columns = header, rows = body\<rparr>
          else Inl ParserError) = Inr df"
      by (simp add: pd_read_csv_of_text [OF assms(1,2)] content_def)
    then have "columns df # rows df = map (split_on d) content"
      by (auto split: list.splits if_splits)
    then have "length (columns df # rows df) = length content"
      by (metis length_map)
    then show ?thesis by (simp add: content_def is_comment_line_def)
  qed
  from conv blank empty frame show ?thesis by blast
qed

lemma remark_open:
  "open_maybe_gzip remark_world ''remark.rtab'' = Inr (PlainStream ''remark.rtab'')"
  "read_text remark_world (PlainStream ''remark.rtab'') = Inr remark_text"
  by (simp_all add: open_maybe_gzip_def endswith_def open_plain_def remark_world_def
      read_text_def remark_text_def TAB_def LF_def CR_def)

lemma remark_rows:
  "concat (map (\<lambda>l. writerow [CR, LF] (row_of_line TAB l))
     (filter (\<lambda>l. \<not> is_comment_line comment_char l) (file_lines remark_text))) = remark_csv"
  by code_simp

theorem fallback_record_per_line_witness:
  "open_maybe_gzip remark_world ''remark.rtab'' = Inr (PlainStream ''remark.rtab'')
   \<and> read_text remark_world (PlainStream ''remark.rtab'') = Inr remark_text
   \<and> writable remark_world ''out.csv''
   \<and> quotechar \<notin> set remark_text
   \<and> list_all (\<lambda>l. length l \<le> field_limit) (file_lines remark_text)
   \<and> length (filter (is_comment_line comment_char) (file_lines remark_text)) = 1
   \<and> convert_fallback remark_world ''remark.rtab'' ''out.csv'' TAB comment_char
       = (write_file (truncate_file remark_world ''out.csv'') ''out.csv'' remark_csv, Inr ())"
proof -
  have ne: "''remark.rtab'' \<noteq> ''out.csv''" by simp
  have wr: "writable remark_world ''out.csv''" by (simp add: remark_world_def)
  have q: "quotechar \<notin> set remark_text"
    by (simp add: remark_text_def quotechar_def TAB_def LF_def)
  have lens: "\<forall>l \<in> set (file_lines remark_text). length l \<le> field_limit"
    by (simp add: remark_text_def TAB_def LF_def field_limit_def)
  have dl: "TAB \<in> set delims" by (simp add: delims_def)
  have mk: "\<forall>l \<in> set (file_lines remark_text).
           is_comment_line comment_char l \<longrightarrow> TAB \<notin> set (takeWhile is_space l)"
    by (simp add: remark_text_def TAB_def LF_def is_comment_line_def startswith_def
        lstrip_def is_space_def comment_char_def)
  have one: "length (filter (is_comment_line comment_char) (file_lines remark_text)) = 1"
    by code_simp
  from fallback_record_per_line [OF remark_open ne wr q lens dl mk]
  have "convert_fallback remark_world ''remark.rtab'' ''out.csv'' TAB comment_char
       = (write_file (truncate_file remark_world ''out.csv'') ''out.csv'' remark_csv, Inr ())"
    by (simp only: remark_rows)
  with remark_open wr q lens one show ?thesis
    by (simp add: list_all_iff)
qed

lemma demo_open_noted:
  "open_maybe_gzip demo_world ''noted.rtab'' = Inr (PlainStream ''noted.rtab'')"
  "read_text demo_world (PlainStream ''noted.rtab'') = Inr noted_text"
  by (simp_all add: open_maybe_gzip_def endswith_def open_plain_def demo_world_def
      read_text_def noted_text_def TAB_def LF_def CR_def)

lemma demo_open_quoted:
  "open_maybe_gzip demo_world ''quoted.rtab'' = Inr (PlainStream ''quoted.rtab'')"
  "read_text demo_world (PlainStream ''quoted.rtab'') = Inr quoted_text"
  by (simp_all add: open_maybe_gzip_def endswith_def open_plain_def demo_world_def
      read_text_def quoted_text_def TAB_def LF_def CR_def quotechar_def)

lemma quoted_records:
  "csv_reader (file_lines quoted_text) TAB = ([[''a'' @ [LF] @ ''b''], [''c'']], None)"
  by (simp add: csv_reader_def quoted_text_def parse_line_def parse_process_char_def
      start_field_def parse_add_char_def parse_save_field_def parse_reset_def is_eol_def
      after_eol_def field_limit_def quotechar_def TAB_def LF_def CR_def)

lemma noted_plain: "\<forall>l \<in> set (file_lines noted_text). plain_line l"
  by (simp add: noted_text_def plain_line_def field_limit_def quotechar_def TAB_def LF_def CR_def)

lemma noted_records:
  "csv_reader (file_lines noted_text) TAB
     = ([[''a'', ''b''], ['''', ''# note''], [''1'', ''2'']], None)"
  using csv_reader_plain [OF noted_plain, of TAB]
  by (simp add: noted_text_def row_of_line_def chomp_def TAB_def LF_def)

lemma read_text_demo_truncated:
  "read_text (truncate_file demo_world ''out.csv'') (PlainStream ''quoted.rtab'') = Inr quoted_text"
  "read_text (truncate_file demo_world ''out.csv'') (PlainStream ''noted.rtab'') = Inr noted_text"
  using read_text_truncate_other [OF demo_open_quoted(1), of "''out.csv''"] demo_open_quoted(2)
    read_text_truncate_other [OF demo_open_noted(1), of "''out.csv''"] demo_open_noted(2)
  by simp_all

text \<open>
  C10, as stated, fails: \<open>quoted_text\<close> has three input lines, none of them a
  comment, and the reader joins the first two into one record, so the fallback
  writes two records.
\<close>

theorem quoted_field_spans_lines:
  "length (file_lines quoted_text) = 3
   \<and> filter (\<lambda>l. startswith (lstrip l) comment_char) (file_lines quoted_text) = []
   \<and> csv_reader (file_lines quoted_text) TAB = ([[''a'' @ [LF] @ ''b''], [''c'']], None)
   \<and> convert_fallback demo_world ''quoted.rtab'' ''out.csv'' TAB comment_char
       = (write_file (truncate_file demo_world ''out.csv'') ''out.csv'' quoted_csv, Inr ())"
proof -
  have a: "length (file_lines quoted_text) = 3" by code_simp
  have b: "filter (\<lambda>l. startswith (lstrip l) comment_char) (file_lines quoted_text) = []"
    by code_simp
  have "concat (map (writerow [CR, LF])
          (filter (\<lambda>row. \<not> is_comment_row comment_char row) [[''a'' @ [LF] @ ''b''], [''c'']]))
        = quoted_csv"
    by code_simp
  with convert_fallback_of_text [OF demo_open_quoted(1) demo_flags(2)
      read_text_demo_truncated(1) quoted_records, of comment_char]
  have "convert_fallback demo_world ''quoted.rtab'' ''out.csv'' TAB comment_char
       = (write_file (truncate_file demo_world ''out.csv'') ''out.csv'' quoted_csv, Inr ())"
    by simp
  with a b quoted_records show ?thesis by simp
qed

text \<open>
  C3 (code defect). The claim: a line whose first non-whitespace character is the
  comment marker contributes no record, in either path. The second line of
  \<open>noted_text\<close> is a tab followed by \<open># note\<close>. With the tab as delimiter the
  reader splits it into an empty first field and \<open># note\<close>; the test looks at the
  first field only, finds no marker, and the fallback writes the record
  \<open>,# note\<close>.
\<close>

theorem fallback_keeps_indented_comment:
  "detect_delimiter noted_text = Inr TAB
   \<and> file_lines noted_text ! 1 = [TAB] @ ''# note'' @ [LF]
   \<and> startswith (lstrip (file_lines noted_text ! 1)) comment_char
   \<and> csv_reader (file_lines noted_text) TAB
       = ([[''a'', ''b''], ['''', ''# note''], [''1'', ''2'']], None)
   \<and> convert_fallback demo_world ''noted.rtab'' ''out.csv'' TAB comment_char
       = (write_file (truncate_file demo_world ''out.csv'') ''out.csv'' noted_csv, Inr ())
   \<and> noted_csv = ''a,b'' @ [CR, LF] @ '',# note'' @ [CR, LF] @ ''1,2'' @ [CR, LF]"
proof -
  have a: "detect_delimiter noted_text = Inr TAB" by code_simp
  have b: "file_lines noted_text ! 1 = [TAB] @ ''# note'' @ [LF]" by code_simp
  have c: "startswith (lstrip (file_lines noted_text ! 1)) comment_char" by code_simp
  have "concat (map (writerow [CR, LF])
          (filter (\<lambda>row. \<not> is_comment_row comment_char row)
             [[''a'', ''b''], ['''', ''# note''], [''1'', ''2'']]))
        = noted_csv"
    by code_simp
  with convert_fallback_of_text [OF demo_open_noted(1) demo_flags(2)
      read_text_demo_truncated(2) noted_records, of comment_char]
  have "convert_fallback demo_world ''noted.rtab'' ''out.csv'' TAB comment_char
       = (write_file (truncate_file demo_world ''out.csv'') ''out.csv'' noted_csv, Inr ())"
    by simp
  with a b c noted_records show ?thesis by (simp add: noted_csv_def)
qed

lemma convert_with_pandas_failure_world:
  "convert_with_pandas w inpath outpath d c = (w1, Inl e) \<Longrightarrow> w1 = w"
  by (auto simp: convert_with_pandas_def Let_def split: if_splits sum.splits)

section \<open>Compressed input\<close>

text \<open>
  C5 (amended). Let \<open>p\<close> be a plain file whose name does not end in \<open>.gz\<close> and
  \<open>pz\<close> a file whose name does and whose gzip payload is the content of \<open>p\<close>,
  the output path being neither of them. Then \<open>pz\<close> is opened through gzip and \<open>p\<close> plainly, by
  the suffix alone; both deliver the same text, the same preview, and with any
  delimiter the structured and the fallback conversion give the same result and
  the same output file; the whole runs are equal.
\<close>

theorem gzip_transparent:
  assumes "nodes w p = Some (Regular t g)" and "nodes w pz = Some (Regular z (Some t))"
    and "endswith pz ''.gz''" and "\<not> endswith p ''.gz''"
    and "out \<noteq> p" and "out \<noteq> pz"
  shows "open_maybe_gzip w pz = Inr (GzipStream pz)
     \<and> open_maybe_gzip w p = Inr (PlainStream p)
     \<and> read_text w (GzipStream pz) = read_text w (PlainStream p)
     \<and> read_preview w pz n = read_preview w p n
     \<and> convert_with_pandas w pz out d c = convert_with_pandas w p out d c
     \<and> convert_fallback w pz out d c = convert_fallback w p out d c
     \<and> main w [prog, pz, out] = main w [prog, p, out]"
proof -
  have oz: "open_maybe_gzip w pz = Inr (GzipStream pz)"
    using assms(2,3) by (simp add: open_maybe_gzip_def open_gzip_def)
  have op: "open_maybe_gzip w p = Inr (PlainStream p)"
    using assms(1,4) by (simp add: open_maybe_gzip_def open_plain_def)
  have rt: "read_text w (GzipStream pz) = read_text w (PlainStream p)"
    using assms(1,2) by (simp add: read_text_def)
  have rp: "read_preview w pz n = read_preview w p n" for n
    by (simp add: read_preview_def oz op rt)
  have pd: "pd_read_csv w pz d c = pd_read_csv w p d c" for d c
    by (simp add: pd_read_csv_def oz op rt)
  have cp: "convert_with_pandas w pz out d c = convert_with_pandas w p out d c" for d c
    by (simp add: convert_with_pandas_def pd)
  have rt1: "read_text (truncate_file w out) (GzipStream pz)
               = read_text (truncate_file w out) (PlainStream p)"
    using assms(1,2,5,6) by (simp add: read_text_def nodes_truncate_file)
  have cf: "convert_fallback w pz out d c = convert_fallback w p out d c" for d c
    by (simp add: convert_fallback_def oz op rt1)
  have ex: "path_exists w pz" "path_exists w p"
    using assms(1,2) by (simp_all add: path_exists_def)
  have m: "main w [prog, pz, out] = main w [prog, p, out]"
  proof (cases "read_preview w p 20")
    case (Inl e)
    with rp [of 20] have "read_preview w pz 20 = Inl e" by simp
    from main_preview_error [of "[prog, pz, out]" w e] main_preview_error [of "[prog, p, out]" w e]
      this Inl ex
    show ?thesis by simp
  next
    case (Inr sample)
    with rp [of 20] have pz: "read_preview w pz 20 = Inr sample" by simp
    obtain delim where dl: "detect_delimiter sample = Inr delim"
      using detect_delimiter_total by blast
    obtain w1 res where c1: "convert_with_pandas w p out delim comment_char = (w1, res)"
      by (cases "convert_with_pandas w p out delim comment_char")
    with cp [of delim comment_char]
    have c1z: "convert_with_pandas w pz out delim comment_char = (w1, res)" by simp
    show ?thesis
    proof (cases res)
      case (Inr df)
      from main_structured [of "[prog, pz, out]" w sample delim w1 df]
        main_structured [of "[prog, p, out]" w sample delim w1 df]
        Inr \<open>read_preview w p 20 = Inr sample\<close> pz ex dl c1 c1z
      show ?thesis by simp
    next
      case (Inl e)
      with c1 have w1: "w1 = w" using convert_with_pandas_failure_world by blast
      obtain w2 res2 where f: "convert_fallback w p out delim comment_char = (w2, res2)"
        by (cases "convert_fallback w p out delim comment_char")
      with cf [of delim comment_char]
      have fz: "convert_fallback w pz out delim comment_char = (w2, res2)" by simp
      show ?thesis
      proof (cases res2)
        case (Inr u)
        from main_fallback [of "[prog, pz, out]" w sample delim w e w2 u]
          main_fallback [of "[prog, p, out]" w sample delim w e w2 u]
          Inr Inl \<open>read_preview w p 20 = Inr sample\<close> pz ex dl c1 c1z f fz w1
        show ?thesis by simp
      next
        case e2: (Inl e2)
        from main_both_fail [of "[prog, pz, out]" w sample delim w e w2 e2]
          main_both_fail [of "[prog, p, out]" w sample delim w e w2 e2]
          e2 Inl \<open>read_preview w p 20 = Inr sample\<close> pz ex dl c1 c1z f fz w1
        show ?thesis by simp
      qed
    qed
  qed
  from oz op rt rp cp cf m show ?thesis by blast
qed

lemma demo_nodes_table:
  "nodes demo_world ''in.rtab'' = Some (Regular table_text None)"
  "nodes demo_world ''in.rtab.gz'' = Some (Regular ''?'' (Some table_text))"
  by (simp_all add: demo_world_def)

theorem gzip_transparent_witness:
  "nodes demo_world ''in.rtab'' = Some (Regular table_text None)
   \<and> nodes demo_world ''in.rtab.gz'' = Some (Regular ''?'' (Some table_text))
   \<and> endswith ''in.rtab.gz'' ''.gz'' \<and> \<not> endswith ''in.rtab'' ''.gz''
   \<and> convert_fallback demo_world ''in.rtab.gz'' ''out.csv'' TAB comment_char
       = convert_fallback demo_world ''in.rtab'' ''out.csv'' TAB comment_char
   \<and> main demo_world [''rtab_to_csv.py'', ''in.rtab.gz'', ''out.csv'']
       = main demo_world [''rtab_to_csv.py'', ''in.rtab'', ''out.csv'']
   \<and> nodes (final (main demo_world [''rtab_to_csv.py'', ''in.rtab.gz'', ''out.csv''])) ''out.csv''
       = Some (Regular table_csv None)"
proof -
  have s: "endswith ''in.rtab.gz'' ''.gz''" "\<not> endswith ''in.rtab'' ''.gz''"
    by (simp_all add: endswith_def)
  have ne: "''out.csv'' \<noteq> ''in.rtab''" "''out.csv'' \<noteq> ''in.rtab.gz''" by simp_all
  note t = gzip_transparent [OF demo_nodes_table s ne, of _ TAB comment_char "''rtab_to_csv.py''"]
  have "main demo_world [''rtab_to_csv.py'', ''in.rtab'', ''out.csv''] =
         \<lparr>ending = Returned,
          stdout = preview_lines table_text TAB @ [WroteTable ''out.csv'' 2 3],
          attempts = [StructuredAttempt],
          final = write_file demo_world ''out.csv'' table_csv\<rparr>"
    using main_on_table [of "[''rtab_to_csv.py'', ''in.rtab'', ''out.csv'']"
        demo_world "PlainStream ''in.rtab''"] demo_open_table demo_flags
    by simp
  with t have "nodes (final (main demo_world [''rtab_to_csv.py'', ''in.rtab.gz'', ''out.csv'']))
      ''out.csv'' = Some (Regular table_csv None)"
    by (simp add: write_file_def table_csv_def)
  with t demo_nodes_table s show ?thesis by blast
qed

lemma bare_nodes:
  "nodes bare_world ''in.rtab'' = Some (Regular table_text None)"
  "nodes bare_world ''in.rtab.gz'' = Some (Regular ''?'' (Some table_text))"
  by (simp_all add: bare_world_def demo_world_def)

lemma bare_open:
  "open_maybe_gzip bare_world ''in.rtab'' = Inr (PlainStream ''in.rtab'')"
  "open_maybe_gzip bare_world ''in.rtab.gz'' = Inr (GzipStream ''in.rtab.gz'')"
  by (simp_all add: open_maybe_gzip_def endswith_def open_plain_def open_gzip_def bare_nodes)

lemma bare_read:
  "read_text bare_world (PlainStream ''in.rtab'') = Inr table_text"
  "read_text bare_world (GzipStream ''in.rtab.gz'') = Inr table_text"
  "read_text (truncate_file bare_world ''in.rtab'') (PlainStream ''in.rtab'') = Inr []"
  "read_text (truncate_file bare_world ''in.rtab'') (GzipStream ''in.rtab.gz'') = Inr table_text"
  by (simp_all add: read_text_def bare_nodes nodes_truncate_file table_text_def
      TAB_def LF_def CR_def)

lemma bare_flags: "\<not> has_pandas bare_world" "writable bare_world ''in.rtab''"
  by (simp_all add: bare_world_def demo_world_def)

lemma table_plain: "\<forall>l \<in> set (file_lines table_text). plain_line l"
  by (simp add: table_text_def plain_line_def field_limit_def quotechar_def TAB_def LF_def CR_def)

lemma table_records:
  "csv_reader (file_lines table_text) TAB
     = ([[''a'', ''b'', ''c''], [''1'', ''2'', ''3''], [''4'', ''5'', ''6'']], None)"
  using csv_reader_plain [OF table_plain, of TAB]
  by (simp add: table_text_def row_of_line_def chomp_def TAB_def LF_def)

lemma bare_fallback_onto_input:
  "convert_fallback bare_world ''in.rtab'' ''in.rtab'' TAB comment_char
     = (write_file (truncate_file bare_world ''in.rtab'') ''in.rtab'' [], Inr ())"
  using convert_fallback_of_text [OF bare_open(1) bare_flags(2) bare_read(3), of TAB "[]" None
      comment_char]
  by (simp add: csv_reader_def parse_reset_def)

lemma bare_fallback_from_gzip:
  "convert_fallback bare_world ''in.rtab.gz'' ''in.rtab'' TAB comment_char
     = (write_file (truncate_file bare_world ''in.rtab'') ''in.rtab'' table_crlf, Inr ())"
proof -
  have "concat (map (writerow [CR, LF])
          (filter (\<lambda>row. \<not> is_comment_row comment_char row)
             [[''a'', ''b'', ''c''], [''1'', ''2'', ''3''], [''4'', ''5'', ''6'']]))
        = table_crlf"
    by code_simp
  with convert_fallback_of_text [OF bare_open(2) bare_flags(2) bare_read(4) table_records,
      of comment_char]
  show ?thesis by simp
qed

lemma bare_pandas:
  "convert_with_pandas bare_world inpath outpath d c = (bare_world, Inl ImportError)"
  using bare_flags(1) by (simp add: convert_with_pandas_def)

text \<open>
  C5, as stated, fails when the output path is the plain input itself and the
  fallback converts: opening the output empties the file before it is read, so
  converting the plain file leaves an empty file, while converting its gzip copy
  writes the table.
\<close>

theorem output_onto_plain_input:
  "nodes bare_world ''in.rtab'' = Some (Regular table_text None)
   \<and> nodes bare_world ''in.rtab.gz'' = Some (Regular ''?'' (Some table_text))
   \<and> nodes (final (main bare_world [''rtab_to_csv.py'', ''in.rtab'', ''in.rtab''])) ''in.rtab''
       = Some (Regular [] (Some []))
   \<and> nodes (final (main bare_world [''rtab_to_csv.py'', ''in.rtab.gz'', ''in.rtab''])) ''in.rtab''
       = Some (Regular table_crlf None)
   \<and> exit_status (main bare_world [''rtab_to_csv.py'', ''in.rtab'', ''in.rtab'']) = 0
   \<and> exit_status (main bare_world [''rtab_to_csv.py'', ''in.rtab.gz'', ''in.rtab'']) = 0
   \<and> table_crlf \<noteq> []"
proof -
  have p: "read_preview bare_world ''in.rtab'' 20 = Inr table_text"
    using read_preview_of_text [OF bare_open(1) bare_read(1), of 20] by (simp only: table_preview)
  have pz: "read_preview bare_world ''in.rtab.gz'' 20 = Inr table_text"
    using read_preview_of_text [OF bare_open(2) bare_read(2), of 20] by (simp only: table_preview)
  have ex: "path_exists bare_world ''in.rtab''" "path_exists bare_world ''in.rtab.gz''"
    by (simp_all add: path_exists_def bare_nodes)
  have m: "main bare_world [''rtab_to_csv.py'', ''in.rtab'', ''in.rtab''] =
      \<lparr>ending = Returned,
       stdout = preview_lines table_text TAB @ [PandasFailed ImportError, Wrote ''in.rtab''],
       attempts = [StructuredAttempt, FallbackAttempt],
       final = write_file (truncate_file bare_world ''in.rtab'') ''in.rtab'' []\<rparr>"
    using main_fallback [of "[''rtab_to_csv.py'', ''in.rtab'', ''in.rtab'']" bare_world
        table_text TAB bare_world ImportError
        "write_file (truncate_file bare_world ''in.rtab'') ''in.rtab'' []" "()"]
      ex p detect_delimiter_table bare_pandas bare_fallback_onto_input
    by simp
  have mz: "main bare_world [''rtab_to_csv.py'', ''in.rtab.gz'', ''in.rtab''] =
      \<lparr>ending = Returned,
       stdout = preview_lines table_text TAB @ [PandasFailed ImportError, Wrote ''in.rtab''],
       attempts = [StructuredAttempt, FallbackAttempt],
       final = write_file (truncate_file bare_world ''in.rtab'') ''in.rtab'' table_crlf\<rparr>"
    using main_fallback [of "[''rtab_to_csv.py'', ''in.rtab.gz'', ''in.rtab'']" bare_world
        table_text TAB bare_world ImportError
        "write_file (truncate_file bare_world ''in.rtab'') ''in.rtab'' table_crlf" "()"]
      ex pz detect_delimiter_table bare_pandas bare_fallback_from_gzip
    by simp
  have ne: "table_crlf \<noteq> []" by (simp add: table_crlf_def)
  from m mz ne bare_nodes show ?thesis
    by (simp add: write_file_def exit_status_def)
qed

end
